theory Spec2Isabelle
  imports Complex_Main
begin

section \<open>Strings\<close>

text \<open>
  JavaScript strings are modelled as \<^typ>\<open>string\<close>, read as ASCII text: the character
  tests below are the ASCII parts of \<^verbatim>\<open>\d\<close>, \<^verbatim>\<open>\s\<close>, \<^verbatim>\<open>\w\<close>,
  \<^verbatim>\<open>toLowerCase\<close> and \<^verbatim>\<open>trim\<close>; characters outside ASCII are left alone by
  all of them.
\<close>

definition is_digit :: "char \<Rightarrow> bool" where
  "is_digit c = (c \<in> set ''0123456789'')"

definition is_space :: "char \<Rightarrow> bool" where
  "is_space c = (c \<in> {CHR '' '', CHR 0x09, CHR 0x0A, CHR 0x0B, CHR 0x0C, CHR 0x0D})"

definition is_word :: "char \<Rightarrow> bool" where
  "is_word c = (c \<in> set ''abcdefghijklmnopqrstuvwxyzABCDEFGHIJKLMNOPQRSTUVWXYZ0123456789_'')"

definition lower_char :: "char \<Rightarrow> char" where
  "lower_char c =
     (case map_of (zip ''ABCDEFGHIJKLMNOPQRSTUVWXYZ'' ''abcdefghijklmnopqrstuvwxyz'') c of
        None \<Rightarrow> c
      | Some l \<Rightarrow> l)"

definition toLowerCase :: "string \<Rightarrow> string" where
  "toLowerCase s = map lower_char s"

definition trim :: "string \<Rightarrow> string" where
  "trim s = rev (dropWhile is_space (rev (dropWhile is_space s)))"

text \<open>\<^verbatim>\<open>s.includes(pat)\<close>: \<open>pat\<close> occurs in \<open>s\<close> as a contiguous substring.\<close>

fun js_includes :: "string \<Rightarrow> string \<Rightarrow> bool" where
  "js_includes [] pat = (pat = [])"
| "js_includes (x # xs) pat = (take (length pat) (x # xs) = pat \<or> js_includes xs pat)"

text \<open>
  \<^verbatim>\<open>parseInt\<close> on the leading decimal digits of a string; \<open>None\<close> stands for
  \<^verbatim>\<open>NaN\<close> (no leading digit). The parser only applies it to captures of
  \<^verbatim>\<open>\d+\<close>, \<^verbatim>\<open>\d{1,2}\<close> and \<^verbatim>\<open>\d{2}\<close>.
\<close>

definition digit_val :: "char \<Rightarrow> nat" where
  "digit_val c = of_char c - 48"

definition parseInt :: "string \<Rightarrow> nat option" where
  "parseInt s =
     (let ds = takeWhile is_digit s
      in if ds = [] then None else Some (foldl (\<lambda>a c. 10 * a + digit_val c) 0 ds))"

text \<open>\<^verbatim>\<open>String(n)\<close> for an integral number, \<^verbatim>\<open>NaN\<close> being \<open>None\<close>.\<close>

definition digit_char :: "nat \<Rightarrow> char" where
  "digit_char n = ''0123456789'' ! n"

fun digits_of :: "nat \<Rightarrow> string" where
  "digits_of n = (if n < 10 then [digit_char n] else digits_of (n div 10) @ [digit_char (n mod 10)])"

declare digits_of.simps [simp del]

definition string_of_int :: "int \<Rightarrow> string" where
  "string_of_int i = (if i < 0 then ''-'' @ digits_of (nat (- i)) else digits_of (nat i))"

definition js_String :: "int option \<Rightarrow> string" where
  "js_String v = (case v of None \<Rightarrow> ''NaN'' | Some i \<Rightarrow> string_of_int i)"

text \<open>\<^verbatim>\<open>s.padStart(2, '0')\<close>\<close>

definition padStart2 :: "string \<Rightarrow> string" where
  "padStart2 s = replicate (2 - length s) (CHR ''0'') @ s"


section \<open>Regular expressions\<close>

text \<open>
  The fragment of JavaScript regular expressions that the parser's three patterns use:
  literals, greedy bounded repetition of a character class, sequence, alternation, greedy
  option, capturing groups and the word boundary. A match state is the captures so far, the
  character before the current position (for \<^verbatim>\<open>\b\<close>) and the rest of the input.
  \<open>rmatch\<close> returns every way to match at the current position in the order in which a
  backtracking matcher tries them, so the head of the list is the match JavaScript reports.
\<close>

datatype cclass = Digit | Space

fun in_class :: "cclass \<Rightarrow> char \<Rightarrow> bool" where
  "in_class Digit c = is_digit c"
| "in_class Space c = is_space c"

datatype regex =
    Lit string
  | Rep cclass nat "nat option"
  | Seq regex regex
  | Alt regex regex
  | Opt regex
  | Grp nat regex
  | WordB

type_synonym captures = "(nat \<times> string) list"
type_synonym mstate = "captures \<times> char option \<times> string"

definition advance :: "char option \<Rightarrow> string \<Rightarrow> char option" where
  "advance p u = (if u = [] then p else Some (last u))"

definition lit_eq :: "bool \<Rightarrow> string \<Rightarrow> string \<Rightarrow> bool" where
  "lit_eq ci l t = (if ci then toLowerCase l = toLowerCase t else l = t)"

definition at_word :: "char option \<Rightarrow> bool" where
  "at_word p = (case p of None \<Rightarrow> False | Some c \<Rightarrow> is_word c)"

definition next_char :: "string \<Rightarrow> char option" where
  "next_char s = (case s of [] \<Rightarrow> None | x # _ \<Rightarrow> Some x)"

text \<open>The first argument is the \<^verbatim>\<open>i\<close> flag.\<close>

fun rmatch :: "bool \<Rightarrow> regex \<Rightarrow> mstate \<Rightarrow> mstate list" where
  "rmatch ci (Lit l) (caps, p, s) =
     (if lit_eq ci l (take (length l) s)
      then [(caps, advance p (take (length l) s), drop (length l) s)] else [])"
| "rmatch ci (Rep k lo hi) (caps, p, s) =
     (let n = length (takeWhile (in_class k) s);
          m = (case hi of None \<Rightarrow> n | Some h \<Rightarrow> min h n)
      in map (\<lambda>i. (caps, advance p (take i s), drop i s)) (rev [lo ..< Suc m]))"
| "rmatch ci (Seq a b) st = concat (map (rmatch ci b) (rmatch ci a st))"
| "rmatch ci (Alt a b) st = rmatch ci a st @ rmatch ci b st"
| "rmatch ci (Opt a) st = rmatch ci a st @ [st]"
| "rmatch ci (Grp g a) (caps, p, s) =
     map (\<lambda>(caps', p', s'). (caps' @ [(g, take (length s - length s') s)], p', s'))
         (rmatch ci a (caps, p, s))"
| "rmatch ci WordB (caps, p, s) =
     (if at_word p \<noteq> at_word (next_char s) then [(caps, p, s)] else [])"

text \<open>
  \<^verbatim>\<open>s.match(re)\<close> without the \<^verbatim>\<open>g\<close> flag: the first position, from the
  left, at which the pattern matches; the result is that match's captures.
\<close>

fun search :: "bool \<Rightarrow> regex \<Rightarrow> char option \<Rightarrow> string \<Rightarrow> captures option" where
  "search ci r p [] =
     (case rmatch ci r ([], p, []) of [] \<Rightarrow> None | (caps, _, _) # _ \<Rightarrow> Some caps)"
| "search ci r p (x # xs) =
     (case rmatch ci r ([], p, x # xs) of
        [] \<Rightarrow> search ci r (Some x) xs
      | (caps, _, _) # _ \<Rightarrow> Some caps)"

definition match :: "bool \<Rightarrow> regex \<Rightarrow> string \<Rightarrow> captures option" where
  "match ci r s = search ci r None s"

text \<open>\<^verbatim>\<open>m[g]\<close>: the text of group \<open>g\<close>, \<open>None\<close> when the group took no part
  in the match (\<^verbatim>\<open>undefined\<close>).\<close>

definition group :: "captures \<Rightarrow> nat \<Rightarrow> string option" where
  "group m g = map_of m g"

text \<open>\<^verbatim>\<open>names.join('|')\<close> as a pattern.\<close>

fun alts :: "string list \<Rightarrow> regex" where
  "alts [] = Lit []"
| "alts [x] = Lit x"
| "alts (x # y # ys) = Alt (Lit x) (alts (y # ys))"

text \<open>\<^verbatim>\<open>/(?:in\s+)?(\d+)\s+days?/\<close>\<close>

definition relativeDayPattern :: regex where
  "relativeDayPattern =
     Seq (Opt (Seq (Lit ''in'') (Rep Space 1 None)))
       (Seq (Grp 1 (Rep Digit 1 None))
         (Seq (Rep Space 1 None)
           (Seq (Lit ''day'') (Opt (Lit ''s'')))))"

definition dayNames :: "string list" where
  "dayNames = [''sunday'', ''monday'', ''tuesday'', ''wednesday'', ''thursday'', ''friday'', ''saturday'']"

text \<open>\<^verbatim>\<open>new RegExp(`\\b(${dayNames.join('|')})\\b`)\<close>\<close>

definition dayPattern :: regex where
  "dayPattern = Seq WordB (Seq (Grp 1 (alts dayNames)) WordB)"

text \<open>\<^verbatim>\<open>/(\d{1,2})(?::(\d{2}))?\s*(am|pm|a\.m\.|p\.m\.)?/i\<close>\<close>

definition timePattern :: regex where
  "timePattern =
     Seq (Grp 1 (Rep Digit 1 (Some 2)))
       (Seq (Opt (Seq (Lit '':'') (Grp 2 (Rep Digit 2 (Some 2)))))
         (Seq (Rep Space 0 None)
           (Opt (Grp 3 (Alt (Lit ''am'') (Alt (Lit ''pm'') (Alt (Lit ''a.m.'') (Lit ''p.m.''))))))))"

text \<open>\<^verbatim>\<open>dayNames.indexOf(name)\<close>, \<open>-1\<close> when absent.\<close>

fun indexOf :: "string list \<Rightarrow> string \<Rightarrow> int" where
  "indexOf [] x = -1"
| "indexOf (y # ys) x = (if y = x then 0 else (let i = indexOf ys x in if i < 0 then -1 else i + 1))"


section \<open>Dates\<close>

text \<open>
  A \<^verbatim>\<open>Date\<close> read through its local-time accessors: the milliseconds since
  1970-01-01T00:00 local time, or the invalid date (time value \<^verbatim>\<open>NaN\<close>). The
  process's zone is taken to have a fixed offset, so that every local day has 86400000 ms,
  and the range of valid dates (100 million days either side of the epoch) is applied to
  local time. Accessors of the invalid date return \<^verbatim>\<open>NaN\<close>, here \<open>None\<close>.
\<close>

datatype jsdate = InvalidDate | LocalMs int

definition msPerDay :: int where
  "msPerDay = 86400000"

definition timeClip :: "int \<Rightarrow> jsdate" where
  "timeClip t = (if \<bar>t\<bar> \<le> 8640000000000000 then LocalMs t else InvalidDate)"

definition Day :: "int \<Rightarrow> int" where
  "Day t = t div msPerDay"

text \<open>Year, month (1 to 12) and day of the month of a day number, in the proleptic
  Gregorian calendar.\<close>

definition civil_from_days :: "int \<Rightarrow> int \<times> int \<times> int" where
  "civil_from_days dn =
     (let z = dn + 719468;
          era = z div 146097;
          doe = z mod 146097;
          yoe = (doe - doe div 1460 + doe div 36524 - doe div 146096) div 365;
          doy = doe - (365 * yoe + yoe div 4 - yoe div 100);
          mp = (5 * doy + 2) div 153;
          d = doy - (153 * mp + 2) div 5 + 1;
          m = (if mp < 10 then mp + 3 else mp - 9);
          y = yoe + era * 400
      in (if m \<le> 2 then y + 1 else y, m, d))"

definition getFullYear :: "jsdate \<Rightarrow> int option" where
  "getFullYear d = (case d of InvalidDate \<Rightarrow> None | LocalMs t \<Rightarrow> Some (fst (civil_from_days (Day t))))"

definition getMonth :: "jsdate \<Rightarrow> int option" where
  "getMonth d = (case d of InvalidDate \<Rightarrow> None | LocalMs t \<Rightarrow> Some (fst (snd (civil_from_days (Day t))) - 1))"

definition getDate :: "jsdate \<Rightarrow> int option" where
  "getDate d = (case d of InvalidDate \<Rightarrow> None | LocalMs t \<Rightarrow> Some (snd (snd (civil_from_days (Day t)))))"

definition getDay :: "jsdate \<Rightarrow> int option" where
  "getDay d = (case d of InvalidDate \<Rightarrow> None | LocalMs t \<Rightarrow> Some ((Day t + 4) mod 7))"

definition getHours :: "jsdate \<Rightarrow> int option" where
  "getHours d = (case d of InvalidDate \<Rightarrow> None | LocalMs t \<Rightarrow> Some ((t div 3600000) mod 24))"

definition getMinutes :: "jsdate \<Rightarrow> int option" where
  "getMinutes d = (case d of InvalidDate \<Rightarrow> None | LocalMs t \<Rightarrow> Some ((t div 60000) mod 60))"

text \<open>\<^verbatim>\<open>d.setDate(d.getDate() + n)\<close>: the same time of day, \<open>n\<close> days later;
  \<open>None\<close> is \<^verbatim>\<open>NaN\<close>.\<close>

definition addDays :: "jsdate \<Rightarrow> int option \<Rightarrow> jsdate" where
  "addDays d n =
     (case (d, n) of
        (LocalMs t, Some k) \<Rightarrow> timeClip (t + k * msPerDay)
      | _ \<Rightarrow> InvalidDate)"

text \<open>\<^verbatim>\<open>d.setHours(h, m, 0, 0)\<close>: hours and minutes beyond 23 and 59 carry over.\<close>

definition setHours :: "jsdate \<Rightarrow> nat option \<Rightarrow> nat option \<Rightarrow> jsdate" where
  "setHours d h m =
     (case (d, h, m) of
        (LocalMs t, Some hh, Some mi) \<Rightarrow>
          timeClip (Day t * msPerDay + int hh * 3600000 + int mi * 60000)
      | _ \<Rightarrow> InvalidDate)"


section \<open>The natural-language date and time parser\<close>

record ParsedDateTime =
  datetime :: string
  isAllDay :: bool

datatype js_exn = RangeError

text \<open>\<^verbatim>\<open>`${year}-${month}-${day}`\<close>\<close>

definition dateString :: "jsdate \<Rightarrow> string" where
  "dateString d =
     js_String (getFullYear d) @ ''-'' @
     padStart2 (js_String (map_option (\<lambda>m. m + 1) (getMonth d))) @ ''-'' @
     padStart2 (js_String (getDate d))"

text \<open>\<^verbatim>\<open>`${year}-${month}-${day}T${hour}:${minute}:00`\<close>\<close>

definition dateTimeString :: "jsdate \<Rightarrow> string" where
  "dateTimeString d =
     dateString d @ ''T'' @
     padStart2 (js_String (getHours d)) @ '':'' @
     padStart2 (js_String (getMinutes d)) @ '':00''"

text \<open>
  \<open>parseTimeForDate\<close>. The time pattern is searched for anywhere in the input, so the
  first one or two digits of the input are taken as the hour.
\<close>

definition parseTimeForDate :: "string \<Rightarrow> jsdate \<Rightarrow> string \<Rightarrow> ParsedDateTime" where
  "parseTimeForDate input date timezone =
     (case match True timePattern input of
        Some timeMatch \<Rightarrow>
          (let hours0 = (case group timeMatch 1 of None \<Rightarrow> None | Some g \<Rightarrow> parseInt g);
               minutes = (case group timeMatch 2 of
                            None \<Rightarrow> Some 0
                          | Some g \<Rightarrow> if g = [] then Some 0 else parseInt g);
               ampm = (case group timeMatch 3 of None \<Rightarrow> [] | Some g \<Rightarrow> toLowerCase g);
               hours =
                 (if ampm \<noteq> [] \<and> (js_includes ampm ''pm'' \<or> js_includes ampm ''p.m.'')
                  then (if hours0 \<noteq> Some 12 then map_option (\<lambda>h. h + 12) hours0 else hours0)
                  else if ampm \<noteq> [] \<and> (js_includes ampm ''am'' \<or> js_includes ampm ''a.m.'') \<and> hours0 = Some 12
                  then Some 0
                  else hours0);
               targetDate = setHours date hours minutes
           in \<lparr>datetime = dateTimeString targetDate, isAllDay = False\<rparr>)
      | None \<Rightarrow> \<lparr>datetime = dateString date, isAllDay = True\<rparr>)"

text \<open>\<^verbatim>\<open>a % 7\<close> on integers: the remainder takes the sign of the dividend.\<close>

definition js_rem :: "int \<Rightarrow> int \<Rightarrow> int" where
  "js_rem a n = (if a < 0 then - ((- a) mod n) else a mod n)"

definition getNextWeekdayDate :: "jsdate \<Rightarrow> int \<Rightarrow> jsdate" where
  "getNextWeekdayDate currentDate targetDay =
     (case getDay currentDate of
        None \<Rightarrow> InvalidDate
      | Some currentDay \<Rightarrow>
          (let daysUntilTarget = js_rem (targetDay - currentDay + 7) 7
           in if daysUntilTarget = 0 then addDays currentDate (Some 7)
              else addDays currentDate (Some daysUntilTarget)))"

text \<open>
  \<open>parseNaturalDateTime\<close>. The first argument stands for
  \<^verbatim>\<open>new Date(new Date().toLocaleString("en-US", { timeZone: timezone }))\<close>, the
  current local date and time in the zone, at the instant of the call;
  \<^verbatim>\<open>toLocaleString\<close> raises \<^verbatim>\<open>RangeError\<close> on a name that is not a time
  zone. The timezone argument defaults to \<^verbatim>\<open>'UTC'\<close> (\<open>zoneName\<close>).
\<close>

definition zoneName :: "string option \<Rightarrow> string" where
  "zoneName tz = (case tz of None \<Rightarrow> ''UTC'' | Some z \<Rightarrow> z)"

definition parseNaturalDateTime ::
  "(string \<Rightarrow> js_exn + jsdate) \<Rightarrow> string \<Rightarrow> string option \<Rightarrow> js_exn + ParsedDateTime" where
  "parseNaturalDateTime clock input tz =
     (let timezone = zoneName tz;
          normalizedInput = trim (toLowerCase input)
      in case clock timezone of
           Inl e \<Rightarrow> Inl e
         | Inr currentInTimezone \<Rightarrow>
             if js_includes normalizedInput ''today''
             then Inr (parseTimeForDate normalizedInput currentInTimezone timezone)
             else if js_includes normalizedInput ''tomorrow''
             then Inr (parseTimeForDate normalizedInput (addDays currentInTimezone (Some 1)) timezone)
             else if js_includes normalizedInput ''yesterday''
             then Inr (parseTimeForDate normalizedInput (addDays currentInTimezone (Some (- 1))) timezone)
             else
               (case match False relativeDayPattern normalizedInput of
                  Some relativeDayMatch \<Rightarrow>
                    (let daysToAdd = (case group relativeDayMatch 1 of
                                        None \<Rightarrow> None | Some g \<Rightarrow> map_option int (parseInt g))
                     in Inr (parseTimeForDate normalizedInput
                               (addDays currentInTimezone daysToAdd) timezone))
                | None \<Rightarrow>
                    (case match False dayPattern normalizedInput of
                       Some dayMatch \<Rightarrow>
                         (let targetDayName = (case group dayMatch 1 of None \<Rightarrow> [] | Some g \<Rightarrow> g)
                          in Inr (parseTimeForDate normalizedInput
                                    (getNextWeekdayDate currentInTimezone (indexOf dayNames targetDayName))
                                    timezone))
                     | None \<Rightarrow>
                         Inr \<lparr>datetime = input, isAllDay = \<not> js_includes input ''T''\<rparr>)))"


section \<open>Creating an event: \<open>CreateEventHandler\<close>\<close>

text \<open>
  Numbers that carry a similarity score are modelled as reals; \<^verbatim>\<open>Math.round(x)\<close> is
  \<open>\<lfloor>x + 1/2\<rfloor>\<close>.
\<close>

definition Math_round :: "real \<Rightarrow> int" where
  "Math_round x = \<lfloor>x + 1 / 2\<rfloor>"

text \<open>A string used as a condition: \<^verbatim>\<open>undefined\<close> and \<^verbatim>\<open>''\<close> are falsy.\<close>

definition truthy_str :: "string option \<Rightarrow> bool" where
  "truthy_str v = (case v of None \<Rightarrow> False | Some s \<Rightarrow> s \<noteq> [])"

text \<open>\<^verbatim>\<open>{ message, code, response: { status } }\<close>: an error value as the handler reads
  it. \<open>Error msg\<close> is \<^verbatim>\<open>new Error(msg)\<close>.\<close>

record js_error =
  message :: string
  code :: "int option"
  response_status :: "int option"

definition Error :: "string \<Rightarrow> js_error" where
  "Error msg = \<lparr>message = msg, code = None, response_status = None\<rparr>"

text \<open>What \<open>runTool\<close> throws, one constructor for each place that throws: the duplicate
  error of \<open>runTool\<close>, the ID conflict of \<open>createEvent\<close>, and an error that
  comes from a collaborator (directly, or as returned by \<^verbatim>\<open>handleGoogleApiError\<close>).\<close>

datatype thrown =
    DuplicateEventError string
  | EventIdExistsError string
  | ApiError js_error

record EventDateTime =
  date :: "string option"
  dateTime :: "string option"
  dt_timeZone :: "string option"

record 'a Attendee =
  email :: "string option"
  self :: "bool option"
  details :: "'a option"

record 'd ConferenceData =
  conferenceId :: "string option"
  conference_details :: 'd

text \<open>The conference data of the request body: the caller's own, or a request for a new
  link with the given \<^verbatim>\<open>requestId\<close> and solution type \<^verbatim>\<open>hangoutsMeet\<close>.\<close>

datatype 'd conference = Provided "'d ConferenceData" | CreateRequest string

text \<open>
  The arguments of the tool, after schema validation. \<open>other_fields\<close> stands for the
  fields that \<open>createEvent\<close> copies into the request as they are (\<^verbatim>\<open>colorId\<close>,
  \<^verbatim>\<open>reminders\<close>, \<^verbatim>\<open>recurrence\<close>, \<^verbatim>\<open>transparency\<close>, \<^verbatim>\<open>visibility\<close>,
  the guest permissions, \<^verbatim>\<open>extendedProperties\<close>, \<^verbatim>\<open>source\<close>).
\<close>

record ('a, 'd, 'x) CreateEventInput =
  calendarId :: string
  eventId :: "string option"
  summary :: string
  description :: "string option"
  start :: string
  end' :: string
  timeZone :: "string option"
  location :: "string option"
  attendees :: "'a Attendee list option"
  conferenceData :: "'d ConferenceData option"
  attachments :: "string list option"
  sendUpdates :: "string option"
  other_fields :: 'x
  calendarsToCheck :: "string list option"
  duplicateSimilarityThreshold :: "real option"
  allowDuplicates :: "bool option"

record 'a EventToCheck =
  chk_summary :: string
  chk_description :: "string option"
  chk_start :: EventDateTime
  chk_end :: EventDateTime
  chk_attendees :: "'a Attendee list option"
  chk_location :: "string option"

record ConflictDetectionOptions =
  opt_checkDuplicates :: bool
  opt_checkConflicts :: bool
  opt_calendarsToCheck :: "string list"
  opt_duplicateSimilarityThreshold :: real

text \<open>An entry of \<^verbatim>\<open>conflicts.duplicates\<close>, with the fields the handler reads.\<close>

record DuplicateEvent =
  dup_id :: "string option"
  title :: string
  dup_start :: "string option"
  dup_end :: "string option"
  url :: "string option"
  similarity :: real

record DuplicateMatch =
  event :: DuplicateEvent
  dup_calendarId :: "string option"
  suggestion :: string

text \<open>The detection report: the temporal conflicts (opaque here) and the duplicates.\<close>

record 'c ConflictCheckResult =
  conflicts :: "'c list"
  duplicates :: "DuplicateMatch list"

record ('a, 'd, 'x) RequestBody =
  rb_summary :: string
  rb_description :: "string option"
  rb_start :: EventDateTime
  rb_end :: EventDateTime
  rb_attendees :: "'a Attendee list"
  rb_location :: "string option"
  rb_other_fields :: 'x
  rb_conferenceData :: "'d conference"
  rb_attachments :: "string list option"
  rb_id :: "string option"

record ('a, 'd, 'x) InsertRequest =
  ins_calendarId :: string
  requestBody :: "('a, 'd, 'x) RequestBody"
  ins_sendUpdates :: "string option"
  conferenceDataVersion :: nat
  supportsAttachments :: "bool option"

text \<open>The calls the handler makes to the calendar service, in order.\<close>

datatype ('a, 'd, 'x) call =
    GetCalendarTimezone string
  | CheckConflicts "'a EventToCheck" string ConflictDetectionOptions
  | GetTokenInfo
  | EventsInsert "('a, 'd, 'x) InsertRequest"

text \<open>
  The collaborators of the handler, none of them under the sources: the calendar time zone
  lookup, \<^verbatim>\<open>createTimeObject\<close>, the conflict detection service,
  \<^verbatim>\<open>validateEventId\<close> (\<open>Some e\<close>: it throws \<open>e\<close>), the e-mail address of the
  token's owner, \<^verbatim>\<open>calendar.events.insert\<close> (the \<^verbatim>\<open>data\<close> of the response, or
  the error it raises), \<^verbatim>\<open>handleGoogleApiError\<close> and \<^verbatim>\<open>Date.now().toString()\<close>.
\<close>

record ('a, 'd, 'x, 'ev, 'c) collaborators =
  getCalendarTimezone :: "string \<Rightarrow> js_error + string"
  createTimeObject :: "string \<Rightarrow> string \<Rightarrow> EventDateTime"
  checkConflicts :: "'a EventToCheck \<Rightarrow> string \<Rightarrow> ConflictDetectionOptions \<Rightarrow> js_error + 'c ConflictCheckResult"
  validateEventId :: "string \<Rightarrow> js_error option"
  getTokenInfo_email :: "js_error + string option"
  events_insert :: "('a, 'd, 'x) InsertRequest \<Rightarrow> js_error + 'ev option"
  handleGoogleApiError :: "js_error \<Rightarrow> js_error"
  Date_now_toString :: string

text \<open>
  Modelled from the spec: the constants of \<^verbatim>\<open>CONFLICT_DETECTION_CONFIG\<close>, whose module
  (\<^verbatim>\<open>services/conflict-detection/config.js\<close>) is not among the sources. The detection
  bar defaults to 0.7 and the creation-refusal bar is 0.95, as the descriptions of
  \<^verbatim>\<open>duplicateSimilarityThreshold\<close> and \<^verbatim>\<open>allowDuplicates\<close> in the tool schema
  also say.
\<close>

record ConflictDetectionConfig =
  DEFAULT_DUPLICATE_THRESHOLD :: real
  BLOCKING :: real

definition CONFLICT_DETECTION_CONFIG :: ConflictDetectionConfig where
  "CONFLICT_DETECTION_CONFIG = \<lparr>DEFAULT_DUPLICATE_THRESHOLD = 7 / 10, BLOCKING = 95 / 100\<rparr>"

text \<open>The schema of \<^verbatim>\<open>duplicateSimilarityThreshold\<close>:
  \<^verbatim>\<open>z.number().min(0).max(1).optional()\<close>.\<close>

definition duplicateSimilarityThreshold_schema :: "real option \<Rightarrow> bool" where
  "duplicateSimilarityThreshold_schema v = (case v of None \<Rightarrow> True | Some x \<Rightarrow> 0 \<le> x \<and> x \<le> 1)"

text \<open>\<^verbatim>\<open>args.timeZone || await this.getCalendarTimezone(client, args.calendarId)\<close>, with
  the calls it makes.\<close>

definition resolveTimezone ::
  "('a, 'd, 'x, 'ev, 'c) collaborators \<Rightarrow> ('a, 'd, 'x) CreateEventInput \<Rightarrow>
     (js_error + string) \<times> ('a, 'd, 'x) call list" where
  "resolveTimezone env args =
     (case timeZone args of
        Some z \<Rightarrow> if z \<noteq> [] then (Inr z, [])
                  else (getCalendarTimezone env (calendarId args), [GetCalendarTimezone (calendarId args)])
      | None \<Rightarrow> (getCalendarTimezone env (calendarId args), [GetCalendarTimezone (calendarId args)]))"

text \<open>The options object that \<open>runTool\<close> passes to \<^verbatim>\<open>checkConflicts\<close>. An array is
  truthy even when empty; the number \<open>0\<close> is falsy.\<close>

definition detectionOptions ::
  "ConflictDetectionConfig \<Rightarrow> ('a, 'd, 'x) CreateEventInput \<Rightarrow> ConflictDetectionOptions" where
  "detectionOptions cfg validArgs =
     \<lparr>opt_checkDuplicates = True,
      opt_checkConflicts = True,
      opt_calendarsToCheck =
        (case calendarsToCheck validArgs of Some cs \<Rightarrow> cs | None \<Rightarrow> [calendarId validArgs]),
      opt_duplicateSimilarityThreshold =
        (case duplicateSimilarityThreshold validArgs of
           Some t \<Rightarrow> if t \<noteq> 0 then t else DEFAULT_DUPLICATE_THRESHOLD cfg
         | None \<Rightarrow> DEFAULT_DUPLICATE_THRESHOLD cfg)\<rparr>"

text \<open>The event that \<open>runTool\<close> hands to the detection service.\<close>

definition eventToCheck ::
  "('a, 'd, 'x, 'ev, 'c) collaborators \<Rightarrow> ('a, 'd, 'x) CreateEventInput \<Rightarrow> string \<Rightarrow> 'a EventToCheck" where
  "eventToCheck env args timezone =
     \<lparr>chk_summary = summary args,
      chk_description = description args,
      chk_start = createTimeObject env (start args) timezone,
      chk_end = createTimeObject env (end' args) timezone,
      chk_attendees = attendees args,
      chk_location = location args\<rparr>"

text \<open>The message of the duplicate error.\<close>

definition duplicateMessage :: "DuplicateMatch \<Rightarrow> string" where
  "duplicateMessage exactDuplicate =
     ''Duplicate event detected ('' @ string_of_int (Math_round (similarity (event exactDuplicate) * 100)) @
     ''% similar). '' @
     ''Event \"'' @ title (event exactDuplicate) @ ''\" already exists. '' @
     ''To create anyway, set allowDuplicates to true.''"

text \<open>
  The request that \<open>createEvent\<close> sends to \<^verbatim>\<open>calendar.events.insert\<close>, given
  the time zone and the e-mail address of the token's owner: the owner is added to the
  attendees unless already there, and a new conference link is requested unless the caller
  gave conference data with a \<^verbatim>\<open>conferenceId\<close>.
\<close>

definition insertRequest ::
  "('a, 'd, 'x, 'ev, 'c) collaborators \<Rightarrow> ('a, 'd, 'x) CreateEventInput \<Rightarrow> string \<Rightarrow> string option \<Rightarrow>
     ('a, 'd, 'x) InsertRequest" where
  "insertRequest env args timezone primaryEmail =
     (let attendees0 = (case attendees args of Some as \<Rightarrow> as | None \<Rightarrow> []);
          attendees1 =
            (if \<not> (\<exists>a \<in> set attendees0. email a = primaryEmail)
             then attendees0 @ [\<lparr>email = primaryEmail, self = Some True, details = None\<rparr>]
             else attendees0);
          requestId = (if truthy_str (eventId args) then the (eventId args)
                       else Date_now_toString env);
          conferenceData1 =
            (case conferenceData args of
               Some cd \<Rightarrow> if truthy_str (conferenceId cd) then Provided cd
                          else CreateRequest requestId
             | None \<Rightarrow> CreateRequest requestId);
          body = \<lparr>rb_summary = summary args,
                  rb_description = description args,
                  rb_start = createTimeObject env (start args) timezone,
                  rb_end = createTimeObject env (end' args) timezone,
                  rb_attendees = attendees1,
                  rb_location = location args,
                  rb_other_fields = other_fields args,
                  rb_conferenceData = conferenceData1,
                  rb_attachments = attachments args,
                  rb_id = (if truthy_str (eventId args) then eventId args else None)\<rparr>
      in \<lparr>ins_calendarId = calendarId args,
          requestBody = body,
          ins_sendUpdates = sendUpdates args,
          conferenceDataVersion = 1,
          supportsAttachments =
            (case attachments args of Some _ \<Rightarrow> Some True | None \<Rightarrow> None)\<rparr>)"

text \<open>The body of the \<^verbatim>\<open>try\<close> block of \<open>createEvent\<close>: the event data, or the
  error raised inside the block, with the calls made.\<close>

definition createEvent_try ::
  "('a, 'd, 'x, 'ev, 'c) collaborators \<Rightarrow> ('a, 'd, 'x) CreateEventInput \<Rightarrow>
     (js_error + 'ev) \<times> ('a, 'd, 'x) call list" where
  "createEvent_try env args =
     (case (if truthy_str (eventId args) then validateEventId env (the (eventId args)) else None) of
        Some e \<Rightarrow> (Inl e, [])
      | None \<Rightarrow>
         (case resolveTimezone env args of
            (Inl e, tr) \<Rightarrow> (Inl e, tr)
          | (Inr timezone, tr) \<Rightarrow>
             (case getTokenInfo_email env of
                Inl e \<Rightarrow> (Inl e, tr @ [GetTokenInfo])
              | Inr primaryEmail \<Rightarrow>
                 (let request = insertRequest env args timezone primaryEmail;
                      tr' = tr @ [GetTokenInfo, EventsInsert request]
                  in case events_insert env request of
                       Inl e \<Rightarrow> (Inl e, tr')
                     | Inr None \<Rightarrow> (Inl (Error ''Failed to create event, no data returned''), tr')
                     | Inr (Some data) \<Rightarrow> (Inr data, tr')))))"

text \<open>\<open>createEvent\<close>: the \<^verbatim>\<open>try\<close> block and its \<^verbatim>\<open>catch\<close>.\<close>

definition createEvent ::
  "('a, 'd, 'x, 'ev, 'c) collaborators \<Rightarrow> ('a, 'd, 'x) CreateEventInput \<Rightarrow>
     (thrown + 'ev) \<times> ('a, 'd, 'x) call list" where
  "createEvent env args =
     (case createEvent_try env args of
        (Inr data, tr) \<Rightarrow> (Inr data, tr)
      | (Inl error, tr) \<Rightarrow>
          (if code error = Some 409 \<or> response_status error = Some 409
           then (Inl (EventIdExistsError
                        (''Event ID '' @ [CHR 0x27] @
                         (case eventId args of None \<Rightarrow> ''undefined'' | Some i \<Rightarrow> i) @
                         [CHR 0x27] @ '' already exists. Please use a different ID.'')), tr)
           else (Inl (ApiError (handleGoogleApiError env error)), tr)))"

text \<open>The response of a successful call: the created event, and the detection report that
  the response builders (not among the sources) turn into warnings.\<close>

record ('ev, 'c) CreateEventResponse =
  created :: 'ev
  created_in :: string
  report :: "'c ConflictCheckResult"

text \<open>
  \<open>runTool\<close>: the result (what is thrown, or the response) and the calls made to the
  calendar service, \<^verbatim>\<open>calendar.events.insert\<close> among them. The
  \<^verbatim>\<open>duplicateInfo\<close> object that the source builds before it throws is never used and
  has no counterpart here.
\<close>

definition runTool ::
  "ConflictDetectionConfig \<Rightarrow> ('a, 'd, 'x, 'ev, 'c) collaborators \<Rightarrow> ('a, 'd, 'x) CreateEventInput \<Rightarrow>
     (thrown + ('ev, 'c) CreateEventResponse) \<times> ('a, 'd, 'x) call list" where
  "runTool cfg env validArgs =
     (case resolveTimezone env validArgs of
        (Inl e, tr0) \<Rightarrow> (Inl (ApiError e), tr0)
      | (Inr timezone, tr0) \<Rightarrow>
         (let candidate = eventToCheck env validArgs timezone;
              options = detectionOptions cfg validArgs;
              tr1 = tr0 @ [CheckConflicts candidate (calendarId validArgs) options]
          in case checkConflicts env candidate (calendarId validArgs) options of
               Inl e \<Rightarrow> (Inl (ApiError e), tr1)
             | Inr detected \<Rightarrow>
                (let exactDuplicate =
                       find (\<lambda>dup. similarity (event dup) \<ge> BLOCKING cfg) (duplicates detected)
                 in if exactDuplicate \<noteq> None \<and> allowDuplicates validArgs \<noteq> Some True
                    then (Inl (DuplicateEventError (duplicateMessage (the exactDuplicate))), tr1)
                    else
                      (case createEvent env validArgs of
                         (Inl e, tr2) \<Rightarrow> (Inl e, tr1 @ tr2)
                       | (Inr newEvent, tr2) \<Rightarrow>
                           (Inr \<lparr>created = newEvent, created_in = calendarId validArgs,
                                 report = detected\<rparr>, tr1 @ tr2)))))"

text \<open>The writes, and the detection runs, among the calls made.\<close>

definition inserts :: "('a, 'd, 'x) call list \<Rightarrow> ('a, 'd, 'x) InsertRequest list" where
  "inserts tr = concat (map (\<lambda>c. case c of EventsInsert r \<Rightarrow> [r] | _ \<Rightarrow> []) tr)"

definition detections ::
  "('a, 'd, 'x) call list \<Rightarrow> ('a EventToCheck \<times> string \<times> ConflictDetectionOptions) list" where
  "detections tr = concat (map (\<lambda>c. case c of CheckConflicts e i opts \<Rightarrow> [(e, i, opts)] | _ \<Rightarrow> []) tr)"


section \<open>Dispatching a tool call: \<open>executeWithHandler\<close>\<close>

text \<open>
  The variant of \<open>GoogleCalendarMcpServer.executeWithHandler\<close> that takes the tokens and
  their expiry date from the arguments (the copy of \<^verbatim>\<open>server.ts\<close> kept in
  \<^verbatim>\<open>src/src/utils/tokenFetcher.ts\<close>, lines 119 to 171), which the unit test
  \<^verbatim>\<open>token-parsing.test.ts\<close> exercises.
\<close>

datatype json =
    JUndefined | JNull | JBool bool | JNum real | JNaN | JStr string
  | JArr "json list" | JObj "(string \<times> json) list"

fun truthy :: "json \<Rightarrow> bool" where
  "truthy JUndefined = False"
| "truthy JNull = False"
| "truthy (JBool b) = b"
| "truthy (JNum x) = (x \<noteq> 0)"
| "truthy JNaN = False"
| "truthy (JStr s) = (s \<noteq> [])"
| "truthy (JArr _) = True"
| "truthy (JObj _) = True"

text \<open>\<^verbatim>\<open>v.k\<close>: \<open>None\<close> is the \<^verbatim>\<open>TypeError\<close> of reading a property of
  \<^verbatim>\<open>null\<close> or \<^verbatim>\<open>undefined\<close>.\<close>

fun get_prop :: "json \<Rightarrow> string \<Rightarrow> json option" where
  "get_prop (JObj kvs) k = Some (case map_of kvs k of None \<Rightarrow> JUndefined | Some v \<Rightarrow> v)"
| "get_prop JNull k = None"
| "get_prop JUndefined k = None"
| "get_prop _ k = Some JUndefined"

text \<open>The argument object: a finite map from field names to values; a field that is absent
  reads as \<^verbatim>\<open>undefined\<close>.\<close>

type_synonym js_object = "string \<rightharpoonup> json"

definition field :: "js_object \<Rightarrow> string \<Rightarrow> json" where
  "field obj k = (case obj k of None \<Rightarrow> JUndefined | Some v \<Rightarrow> v)"

definition credential_fields :: "string set" where
  "credential_fields = {''access_token'', ''refresh_token'', ''expiry_date''}"

record Credentials =
  cred_access_token :: json
  cred_refresh_token :: json
  cred_expiry_date :: json

text \<open>The runtime functions used: \<^verbatim>\<open>JSON.parse\<close> (\<open>None\<close>: it throws),
  \<^verbatim>\<open>Number\<close>, \<^verbatim>\<open>toString\<close>, and \<^verbatim>\<open>initializeOAuth2Client\<close>.\<close>

record 'cl runtime =
  JSON_parse :: "string \<Rightarrow> json option"
  Number :: "json \<Rightarrow> json"
  toString :: "json \<Rightarrow> string"
  initializeOAuth2Client :: "js_error + 'cl"

text \<open>
  \<^verbatim>\<open>parsed.success && parsed.tokens && parsed.tokens.google\<close>, then the field of
  \<^verbatim>\<open>parsed.tokens.google\<close> that \<open>pick\<close> reads: \<open>None\<close> when an exception is
  thrown, \<open>Some None\<close> when the condition is false, \<open>Some (Some v)\<close> for the new value.
\<close>

definition google_token :: "json \<Rightarrow> (json \<Rightarrow> json) \<Rightarrow> json option option" where
  "google_token parsed pick =
     (case get_prop parsed ''success'' of
        None \<Rightarrow> None
      | Some s \<Rightarrow>
          if \<not> truthy s then Some None
          else (case get_prop parsed ''tokens'' of
                  None \<Rightarrow> None
                | Some t \<Rightarrow>
                    if \<not> truthy t then Some None
                    else (case get_prop t ''google'' of
                            None \<Rightarrow> None
                          | Some g \<Rightarrow> if \<not> truthy g then Some None else Some (Some (pick g)))))"

text \<open>One of the three \<^verbatim>\<open>if\<close> statements of the \<^verbatim>\<open>try\<close> block: the new value of the
  variable, or \<open>None\<close> when an exception leaves the block.\<close>

definition parse_token :: "'cl runtime \<Rightarrow> json \<Rightarrow> (json \<Rightarrow> json) \<Rightarrow> json option" where
  "parse_token rt v pick =
     (case v of
        JStr s \<Rightarrow>
          if take 1 s = ''{'' then
            (case JSON_parse rt s of
               None \<Rightarrow> None
             | Some parsed \<Rightarrow>
                 (case google_token parsed pick of
                    None \<Rightarrow> None
                  | Some None \<Rightarrow> Some v
                  | Some (Some v') \<Rightarrow> Some v'))
          else Some v
      | _ \<Rightarrow> Some v)"

definition pick_field :: "string \<Rightarrow> json \<Rightarrow> json" where
  "pick_field k g = (case get_prop g k of None \<Rightarrow> JUndefined | Some v \<Rightarrow> v)"

definition pick_expires_at :: "'cl runtime \<Rightarrow> json \<Rightarrow> json" where
  "pick_expires_at rt g =
     (case pick_field ''expires_at'' g of
        JUndefined \<Rightarrow> JUndefined
      | JNull \<Rightarrow> JUndefined
      | e \<Rightarrow> JStr (toString rt e))"

text \<open>The \<^verbatim>\<open>try\<close> block: an exception keeps the values assigned so far.\<close>

definition parse_tokens :: "'cl runtime \<Rightarrow> json \<times> json \<times> json \<Rightarrow> json \<times> json \<times> json" where
  "parse_tokens rt v =
     (case v of (access_token, refresh_token, expiry_date) \<Rightarrow>
        (case parse_token rt access_token (pick_field ''access_token'') of
           None \<Rightarrow> (access_token, refresh_token, expiry_date)
         | Some access_token' \<Rightarrow>
            (case parse_token rt refresh_token (pick_field ''refresh_token'') of
               None \<Rightarrow> (access_token', refresh_token, expiry_date)
             | Some refresh_token' \<Rightarrow>
                (case parse_token rt expiry_date (pick_expires_at rt) of
                   None \<Rightarrow> (access_token', refresh_token', expiry_date)
                 | Some expiry_date' \<Rightarrow> (access_token', refresh_token', expiry_date')))))"

datatype exec_error = AuthenticationRequired string | ClientError js_error

text \<open>
  \<open>executeWithHandler\<close>. The second argument is the handler's \<open>runTool\<close>, applied
  to the tool arguments and to the client with its credentials; what it returns or throws
  is the outcome \<open>'r\<close>.
\<close>

definition executeWithHandler ::
  "'cl runtime \<Rightarrow> (js_object \<Rightarrow> 'cl \<times> Credentials \<Rightarrow> 'r) \<Rightarrow> js_object \<Rightarrow> exec_error + 'r" where
  "executeWithHandler rt handler_runTool args =
     (let toolArgs = args |` (- credential_fields)
      in case parse_tokens rt (field args ''access_token'', field args ''refresh_token'',
                               field args ''expiry_date'') of
           (access_token, refresh_token, expiry_date) \<Rightarrow>
             if \<not> truthy access_token \<or> \<not> truthy refresh_token
             then Inl (AuthenticationRequired
                   ''[GOOGLE_AUTH_ERROR] Authentication required. Please provide access_token and refresh_token as parameters.'')
             else (case initializeOAuth2Client rt of
                     Inl e \<Rightarrow> Inl (ClientError e)
                   | Inr authClient \<Rightarrow>
                       Inr (handler_runTool toolArgs
                              (authClient,
                               \<lparr>cred_access_token = access_token,
                                cred_refresh_token = refresh_token,
                                cred_expiry_date =
                                  (if truthy expiry_date then Number rt expiry_date else JUndefined)\<rparr>))))"


text \<open>
  The older variant of \<open>executeWithHandler\<close> kept in \<^verbatim>\<open>src/src/server.ts\<close> (lines
  170 to 199): it takes only the two tokens out of the arguments and, when neither is given,
  falls back to the tokens stored by the server, provided the token manager finds them valid.
\<close>

record 'cl server =
  oauth2Client :: "'cl \<times> Credentials"
  validateTokens :: bool

definition executeWithHandler_stored ::
  "'cl runtime \<Rightarrow> 'cl server \<Rightarrow> (js_object \<Rightarrow> 'cl \<times> Credentials \<Rightarrow> 'r) \<Rightarrow> js_object \<Rightarrow>
     exec_error + 'r" where
  "executeWithHandler_stored rt srv handler_runTool args =
     (let access_token = field args ''access_token'';
          refresh_token = field args ''refresh_token'';
          toolArgs = args |` (- {''access_token'', ''refresh_token''})
      in if truthy access_token \<or> truthy refresh_token
         then (case initializeOAuth2Client rt of
                 Inl e \<Rightarrow> Inl (ClientError e)
               | Inr authClient \<Rightarrow>
                   Inr (handler_runTool toolArgs
                          (authClient,
                           \<lparr>cred_access_token = access_token,
                            cred_refresh_token = refresh_token,
                            cred_expiry_date = JUndefined\<rparr>)))
         else if validateTokens srv then Inr (handler_runTool toolArgs (oauth2Client srv))
         else Inl (AuthenticationRequired
               ''[GOOGLE_AUTH_ERROR] Authentication required. Please provide access_token and refresh_token as parameters.''))"


section \<open>Auxiliary notions for the proofs\<close>

text \<open>The characters that every match of a pattern consumes (without the \<^verbatim>\<open>i\<close> flag).\<close>

fun required :: "regex \<Rightarrow> char set" where
  "required (Lit l) = set l"
| "required (Rep k lo hi) = {}"
| "required (Seq a b) = required a \<union> required b"
| "required (Alt a b) = required a \<inter> required b"
| "required (Opt a) = {}"
| "required (Grp g a) = required a"
| "required WordB = {}"

text \<open>Patterns that match at every position, possibly the empty string.\<close>

fun nullable :: "regex \<Rightarrow> bool" where
  "nullable (Lit l) = (l = [])"
| "nullable (Rep k lo hi) = (lo = 0)"
| "nullable (Seq a b) = (nullable a \<and> nullable b)"
| "nullable (Alt a b) = (nullable a \<or> nullable b)"
| "nullable (Opt a) = True"
| "nullable (Grp g a) = nullable a"
| "nullable WordB = False"

text \<open>The characters of a formatted date, and of a formatted date and time.\<close>

definition date_chars :: "char set" where
  "date_chars = set ''0123456789-Na''"

definition stamp_chars :: "char set" where
  "stamp_chars = set ''0123456789-:TNa''"

text \<open>No pattern of \<open>parseNaturalDateTime\<close> recognises the input.\<close>

definition unrecognized :: "string \<Rightarrow> bool" where
  "unrecognized x \<longleftrightarrow>
     \<not> js_includes (trim (toLowerCase x)) ''today''
   \<and> \<not> js_includes (trim (toLowerCase x)) ''tomorrow''
   \<and> \<not> js_includes (trim (toLowerCase x)) ''yesterday''
   \<and> match False relativeDayPattern (trim (toLowerCase x)) = None
   \<and> match False dayPattern (trim (toLowerCase x)) = None"

text \<open>A clock for the examples: Monday 2024-01-15, 09:00, in zone \<^verbatim>\<open>UTC\<close>; any other
  name is taken not to be a time zone.\<close>

definition monday_clock :: "string \<Rightarrow> js_exn + jsdate" where
  "monday_clock tz =
     (if tz = ''UTC'' then Inr (LocalMs (19737 * 86400000 + 9 * 3600000)) else Inl RangeError)"


text \<open>Values for the examples of event creation: a calendar whose detection service
  reports the given duplicates next to one temporal conflict, and a call that sets neither
  \<^verbatim>\<open>calendarsToCheck\<close> nor \<^verbatim>\<open>duplicateSimilarityThreshold\<close> nor
  \<^verbatim>\<open>allowDuplicates\<close>.\<close>

definition existing :: "string \<Rightarrow> real \<Rightarrow> DuplicateMatch" where
  "existing name score =
     \<lparr>event = \<lparr>dup_id = Some ''evt1'', title = name, dup_start = Some ''2024-01-15T10:00:00'',
               dup_end = Some ''2024-01-15T11:00:00'', url = None, similarity = score\<rparr>,
      dup_calendarId = Some ''primary'',
      suggestion = ''This may be a duplicate''\<rparr>"

definition calendar_with ::
  "DuplicateMatch list \<Rightarrow> (unit, unit, unit, string, string) collaborators" where
  "calendar_with dups =
     \<lparr>getCalendarTimezone = (\<lambda>i. Inr ''UTC''),
      createTimeObject = (\<lambda>s z. \<lparr>date = None, dateTime = Some s, dt_timeZone = Some z\<rparr>),
      checkConflicts = (\<lambda>e i opts. Inr \<lparr>conflicts = [''overlapping event''], duplicates = dups\<rparr>),
      validateEventId = (\<lambda>i. None),
      getTokenInfo_email = Inr (Some ''owner@example.com''),
      events_insert = (\<lambda>r. Inr (Some ''created event'')),
      handleGoogleApiError = (\<lambda>e. e),
      Date_now_toString = ''1705309200000''\<rparr>"

definition team_sync_call :: "real option \<Rightarrow> (unit, unit, unit) CreateEventInput" where
  "team_sync_call threshold =
     \<lparr>calendarId = ''primary'', eventId = None, summary = ''Team Sync'', description = None,
      start = ''2024-01-15T10:00:00'', end' = ''2024-01-15T11:00:00'', timeZone = Some ''UTC'',
      location = None, attendees = None, conferenceData = None, attachments = None,
      sendUpdates = None, other_fields = (),
      calendarsToCheck = None, duplicateSimilarityThreshold = threshold, allowDuplicates = None\<rparr>"

text \<open>Values for the example of a tool call with simple string tokens.\<close>

definition plain_runtime :: "unit runtime" where
  "plain_runtime =
     \<lparr>JSON_parse = (\<lambda>s. None),
      Number = (\<lambda>v. case v of JStr s \<Rightarrow> (case parseInt s of Some n \<Rightarrow> JNum (real n) | None \<Rightarrow> JNaN)
                       | _ \<Rightarrow> v),
      toString = (\<lambda>v. case v of JStr s \<Rightarrow> s | _ \<Rightarrow> ''[object]''),
      initializeOAuth2Client = Inr ()\<rparr>"

definition token_call :: js_object where
  "token_call =
     [''access_token'' \<mapsto> JStr ''ya29.simple_access_token'',
      ''refresh_token'' \<mapsto> JStr ''1//simple_refresh_token'',
      ''expiry_date'' \<mapsto> JStr ''1763010691'',
      ''calendarId'' \<mapsto> JStr ''primary'']"


section \<open>Facts about strings\<close>

lemma js_includes_append: "js_includes (xs @ pat @ ys) pat"
proof (induction xs)
  case Nil
  show ?case
  proof (cases "pat @ ys")
    case Nil
    then show ?thesis by simp
  next
    case (Cons a list)
    have "take (length pat) (pat @ ys) = pat" by simp
    then show ?thesis unfolding append_Nil Cons by simp
  qed
next
  case (Cons x xs)
  then show ?case by simp
qed

lemma js_includes_subset: "js_includes s pat \<Longrightarrow> set pat \<subseteq> set s"
proof (induction s)
  case Nil
  then show ?case by simp
next
  case (Cons x xs)
  from Cons.prems have "take (length pat) (x # xs) = pat \<or> js_includes xs pat" by simp
  then show ?case
  proof
    assume "take (length pat) (x # xs) = pat"
    then have "set pat = set (take (length pat) (x # xs))" by simp
    also have "\<dots> \<subseteq> set (x # xs)" by (rule set_take_subset)
    finally show ?thesis .
  next
    assume "js_includes xs pat"
    with Cons.IH show ?thesis by auto
  qed
qed

lemma js_includes_char: "js_includes s [c] \<longleftrightarrow> c \<in> set s"
  by (induction s) auto

lemma digit_char_digit: "n < 10 \<Longrightarrow> digit_char n \<in> set ''0123456789''"
proof -
  assume "n < 10"
  then have "n \<in> {0, 1, 2, 3, 4, 5, 6, 7, 8, 9}" by auto
  then show ?thesis by (auto simp: digit_char_def)
qed

lemma digits_of_chars: "set (digits_of n) \<subseteq> set ''0123456789''"
proof (induction n rule: digits_of.induct)
  case (1 n)
  show ?case
  proof (cases "n < 10")
    case True
    then have "digits_of n = [digit_char n]" by (simp add: digits_of.simps)
    with digit_char_digit [OF True] show ?thesis by simp
  next
    case False
    then have e: "digits_of n = digits_of (n div 10) @ [digit_char (n mod 10)]"
      by (subst digits_of.simps) simp
    have "digit_char (n mod 10) \<in> set ''0123456789''" by (rule digit_char_digit) simp
    with 1 [OF False] show ?thesis unfolding e by simp
  qed
qed

lemma digits_date_chars: "set ''0123456789'' \<subseteq> date_chars"
  by (simp add: date_chars_def)

lemma minus_date_chars: "CHR ''-'' \<in> date_chars" and zero_date_chars: "CHR ''0'' \<in> date_chars"
  and NaN_date_chars: "set ''NaN'' \<subseteq> date_chars"
  by (simp_all add: date_chars_def)

lemma js_String_chars: "set (js_String v) \<subseteq> date_chars"
proof (cases v)
  case None
  then show ?thesis using NaN_date_chars by (simp add: js_String_def)
next
  case (Some i)
  have d: "\<And>n. set (digits_of n) \<subseteq> date_chars"
    using digits_of_chars digits_date_chars by blast
  show ?thesis
  proof (cases "i < 0")
    case True
    then have "js_String v = ''-'' @ digits_of (nat (- i))" by (simp add: js_String_def Some string_of_int_def)
    with d [of "nat (- i)"] minus_date_chars show ?thesis by simp
  next
    case False
    then have "js_String v = digits_of (nat i)" by (simp add: js_String_def Some string_of_int_def)
    with d [of "nat i"] show ?thesis by simp
  qed
qed

lemma padStart2_chars: "set s \<subseteq> date_chars \<Longrightarrow> set (padStart2 s) \<subseteq> date_chars"
  using zero_date_chars by (auto simp: padStart2_def)

lemma dateString_chars: "set (dateString d) \<subseteq> date_chars"
proof -
  have "\<And>v. set (padStart2 (js_String v)) \<subseteq> date_chars"
    by (rule padStart2_chars [OF js_String_chars])
  moreover have "set ''-'' \<subseteq> date_chars" using minus_date_chars by simp
  ultimately show ?thesis
    unfolding dateString_def set_append using js_String_chars by blast
qed

lemma date_chars_stamp: "date_chars \<subseteq> stamp_chars" and date_chars_no_T: "CHR ''T'' \<notin> date_chars"
  by (auto simp: date_chars_def stamp_chars_def)

lemma dateTimeString_chars: "set (dateTimeString d) \<subseteq> stamp_chars"
proof -
  have "set (dateString d) \<subseteq> stamp_chars"
    using dateString_chars date_chars_stamp by blast
  moreover have "\<And>v. set (padStart2 (js_String v)) \<subseteq> stamp_chars"
    using padStart2_chars [OF js_String_chars] date_chars_stamp by blast
  moreover have "set ''T'' \<subseteq> stamp_chars" "set '':'' \<subseteq> stamp_chars" "set '':00'' \<subseteq> stamp_chars"
    by (simp_all add: stamp_chars_def)
  ultimately show ?thesis unfolding dateTimeString_def set_append by blast
qed

lemma dateTimeString_has_T: "CHR ''T'' \<in> set (dateTimeString d)"
  by (simp add: dateTimeString_def)


section \<open>Facts about the matcher\<close>

lemma rmatch_required:
  "(c', p', s') \<in> set (rmatch False r (c, p, s)) \<Longrightarrow> \<exists>u. s = u @ s' \<and> required r \<subseteq> set u"
proof (induction r arbitrary: c p s c' p' s')
  case (Lit l)
  then have "l = take (length l) s" and "s' = drop (length l) s"
    by (auto simp: lit_eq_def split: if_splits)
  then have "s = l @ s'" by (metis append_take_drop_id)
  then show ?case by auto
next
  case (Rep k lo hi)
  then obtain i where "s' = drop i s" by (auto simp: Let_def)
  then have "s = take i s @ s'" by simp
  then show ?case by auto
next
  case (Seq a b)
  from Seq.prems obtain c1 p1 s1 where
    a: "(c1, p1, s1) \<in> set (rmatch False a (c, p, s))" and
    b: "(c', p', s') \<in> set (rmatch False b (c1, p1, s1))"
    by auto
  from Seq.IH(1) [OF a] obtain u1 where u1: "s = u1 @ s1" "required a \<subseteq> set u1" by blast
  from Seq.IH(2) [OF b] obtain u2 where u2: "s1 = u2 @ s'" "required b \<subseteq> set u2" by blast
  from u1 u2 have "s = (u1 @ u2) @ s'" "required (Seq a b) \<subseteq> set (u1 @ u2)" by auto
  then show ?case by blast
next
  case (Alt a b)
  from Alt.prems have "(c', p', s') \<in> set (rmatch False a (c, p, s)) \<or> (c', p', s') \<in> set (rmatch False b (c, p, s))"
    by simp
  then show ?case
  proof
    assume "(c', p', s') \<in> set (rmatch False a (c, p, s))"
    from Alt.IH(1) [OF this] show ?thesis by auto
  next
    assume "(c', p', s') \<in> set (rmatch False b (c, p, s))"
    from Alt.IH(2) [OF this] show ?thesis by auto
  qed
next
  case (Opt a)
  from Opt.prems have "(c', p', s') \<in> set (rmatch False a (c, p, s)) \<or> (c', p', s') = (c, p, s)"
    by auto
  then show ?case
  proof
    assume "(c', p', s') \<in> set (rmatch False a (c, p, s))"
    from Opt.IH [OF this] show ?thesis by auto
  next
    assume "(c', p', s') = (c, p, s)"
    then show ?thesis by simp
  qed
next
  case (Grp g a)
  from Grp.prems obtain c0 where "(c0, p', s') \<in> set (rmatch False a (c, p, s))"
    by auto
  from Grp.IH [OF this] show ?case by simp
next
  case WordB
  then show ?case by (auto split: if_splits)
qed

lemma search_hit:
  "search ci r p s = Some caps \<Longrightarrow>
     \<exists>p0 s0 p' s' u. s = u @ s0 \<and> (caps, p', s') \<in> set (rmatch ci r ([], p0, s0))"
proof (induction s arbitrary: p)
  case Nil
  then obtain p' s' where "(caps, p', s') \<in> set (rmatch ci r ([], p, []))"
    by (auto split: list.splits)
  then show ?case by blast
next
  case (Cons x xs)
  show ?case
  proof (cases "rmatch ci r ([], p, x # xs)")
    case Nil
    with Cons.prems have "search ci r (Some x) xs = Some caps" by simp
    from Cons.IH [OF this] obtain p0 s0 p' s' u where
      "xs = u @ s0" "(caps, p', s') \<in> set (rmatch ci r ([], p0, s0))" by blast
    then have "x # xs = (x # u) @ s0" by simp
    with \<open>(caps, p', s') \<in> set (rmatch ci r ([], p0, s0))\<close> show ?thesis by blast
  next
    case (Cons st sts)
    with Cons.prems obtain p' s' where "st = (caps, p', s')" by (cases st) auto
    with Cons have "(caps, p', s') \<in> set (rmatch ci r ([], p, x # xs))" by simp
    moreover have "x # xs = [] @ (x # xs)" by simp
    ultimately show ?thesis by blast
  qed
qed

lemma search_required:
  assumes "search False r p s = Some caps"
  shows "required r \<subseteq> set s"
proof -
  from search_hit [OF assms] obtain p0 s0 p' s' u where
    s: "s = u @ s0" and m: "(caps, p', s') \<in> set (rmatch False r ([], p0, s0))" by blast
  from rmatch_required [OF m] obtain v where "s0 = v @ s'" "required r \<subseteq> set v" by blast
  with s show ?thesis by auto
qed

lemma relativeDayPattern_needs_d: "CHR ''d'' \<in> required relativeDayPattern"
  by (simp add: relativeDayPattern_def)

lemma dayPattern_needs_d: "CHR ''d'' \<in> required dayPattern"
  by (simp add: dayPattern_def dayNames_def)

lemma no_d_no_relative: "CHR ''d'' \<notin> set s \<Longrightarrow> match False relativeDayPattern s = None"
  using search_required [of relativeDayPattern None s] relativeDayPattern_needs_d
  by (cases "match False relativeDayPattern s") (auto simp: match_def)

lemma no_d_no_weekday: "CHR ''d'' \<notin> set s \<Longrightarrow> match False dayPattern s = None"
  using search_required [of dayPattern None s] dayPattern_needs_d
  by (cases "match False dayPattern s") (auto simp: match_def)

lemma rmatch_alts:
  "(c', p', s') \<in> set (rmatch False (alts ls) (c, p, s)) \<Longrightarrow> ls \<noteq> [] \<Longrightarrow>
     c' = c \<and> (\<exists>l \<in> set ls. s = l @ s')"
proof (induction ls rule: alts.induct)
  case 1
  then show ?case by simp
next
  case (2 x)
  then have "x = take (length x) s" "s' = drop (length x) s" "c' = c"
    by (auto simp: lit_eq_def split: if_splits)
  then have "s = x @ s'" by (metis append_take_drop_id)
  with \<open>c' = c\<close> show ?case by simp
next
  case (3 x y ys)
  from "3.prems"(1) have "(c', p', s') \<in> set (rmatch False (Lit x) (c, p, s))
      \<or> (c', p', s') \<in> set (rmatch False (alts (y # ys)) (c, p, s))"
    by simp
  then show ?case
  proof
    assume "(c', p', s') \<in> set (rmatch False (Lit x) (c, p, s))"
    then have "x = take (length x) s" "s' = drop (length x) s" "c' = c"
      by (auto simp: lit_eq_def split: if_splits)
    then have "s = x @ s'" by (metis append_take_drop_id)
    with \<open>c' = c\<close> show ?thesis by simp
  next
    assume "(c', p', s') \<in> set (rmatch False (alts (y # ys)) (c, p, s))"
    from "3.IH" [OF this] show ?thesis by auto
  qed
qed

lemma rmatch_SeqE:
  assumes "st' \<in> set (rmatch ci (Seq a b) st)"
  obtains st1 where "st1 \<in> set (rmatch ci a st)" and "st' \<in> set (rmatch ci b st1)"
  using assms by auto

lemma rmatch_WordB: "st' \<in> set (rmatch ci WordB st) \<Longrightarrow> st' = st"
  by (cases st) (auto split: if_splits)

lemma rmatch_GrpE:
  assumes "(c', p', s') \<in> set (rmatch ci (Grp g a) (c, p, s))"
  obtains c0 where "(c0, p', s') \<in> set (rmatch ci a (c, p, s))"
    and "c' = c0 @ [(g, take (length s - length s') s)]"
  using assms by auto

lemma dayPattern_capture:
  assumes "match False dayPattern n = Some m"
  shows "\<exists>name \<in> set dayNames. m = [(1, name)]"
proof -
  from assms have "search False dayPattern None n = Some m" by (simp add: match_def)
  from search_hit [OF this] obtain p0 s0 p' s' where
    h: "(m, p', s') \<in> set (rmatch False dayPattern ([], p0, s0))" by blast
  then obtain st1 where w1: "st1 \<in> set (rmatch False WordB ([], p0, s0))"
    and r1: "(m, p', s') \<in> set (rmatch False (Seq (Grp 1 (alts dayNames)) WordB) st1)"
    unfolding dayPattern_def by (rule rmatch_SeqE)
  from rmatch_WordB [OF w1] have st1: "st1 = ([], p0, s0)" .
  from r1 obtain st2 where g: "st2 \<in> set (rmatch False (Grp 1 (alts dayNames)) ([], p0, s0))"
    and w2: "(m, p', s') \<in> set (rmatch False WordB st2)"
    unfolding st1 by (rule rmatch_SeqE)
  from rmatch_WordB [OF w2] have st2: "st2 = (m, p', s')" by simp
  from g [unfolded st2] obtain c3 where a: "(c3, p', s') \<in> set (rmatch False (alts dayNames) ([], p0, s0))"
    and m: "m = c3 @ [(1, take (length s0 - length s') s0)]"
    by (rule rmatch_GrpE)
  have ne: "dayNames \<noteq> []" by (simp add: dayNames_def)
  from rmatch_alts [OF a ne] obtain l where l: "c3 = []" "l \<in> set dayNames" "s0 = l @ s'" by blast
  then have "take (length s0 - length s') s0 = l" by simp
  with m l show ?thesis by auto
qed

lemma nullable_matches: "nullable r \<Longrightarrow> rmatch ci r st \<noteq> []"
proof (induction r arbitrary: st)
  case (Lit l)
  then show ?case by (cases st) (simp add: lit_eq_def)
next
  case (Rep k lo hi)
  then show ?case by (cases st) (simp add: Let_def)
next
  case (Seq a b)
  then obtain st1 sts where a: "rmatch ci a st = st1 # sts" by (cases "rmatch ci a st") auto
  from Seq have "rmatch ci b st1 \<noteq> []" by simp
  with a show ?case by simp
next
  case (Alt a b)
  then show ?case by (cases st) auto
next
  case (Opt a)
  then show ?case by simp
next
  case (Grp g a)
  then show ?case by (cases st) simp
next
  case WordB
  then show ?case by simp
qed

lemma rmatch_Seq_nonempty:
  assumes "rmatch ci a st = st1 # sts" and "rmatch ci b st1 \<noteq> []"
  shows "rmatch ci (Seq a b) st \<noteq> []"
  using assms by simp

lemma in_class_Digit: "in_class Digit = is_digit"
  by (rule ext) simp

lemma timePattern_at_digit:
  assumes "is_digit x"
  shows "rmatch True timePattern ([], p, x # xs) \<noteq> []"
proof -
  let ?rest = "Seq (Opt (Seq (Lit '':'') (Grp 2 (Rep Digit 2 (Some 2)))))
         (Seq (Rep Space 0 None)
           (Opt (Grp 3 (Alt (Lit ''am'') (Alt (Lit ''pm'') (Alt (Lit ''a.m.'') (Lit ''p.m.'')))))))"
  have n: "nullable ?rest" by simp
  have "rmatch True (Grp 1 (Rep Digit 1 (Some 2))) ([], p, x # xs) \<noteq> []"
    using assms by (simp add: Let_def)
  then obtain st1 sts where a: "rmatch True (Grp 1 (Rep Digit 1 (Some 2))) ([], p, x # xs) = st1 # sts"
    by (cases "rmatch True (Grp 1 (Rep Digit 1 (Some 2))) ([], p, x # xs)") auto
  from nullable_matches [OF n] have "rmatch True ?rest st1 \<noteq> []" .
  with a show ?thesis unfolding timePattern_def by (rule rmatch_Seq_nonempty)
qed

lemma search_timePattern_digit:
  "\<exists>c \<in> set n. is_digit c \<Longrightarrow> search True timePattern p n \<noteq> None"
proof (induction n arbitrary: p)
  case Nil
  then show ?case by simp
next
  case (Cons x xs)
  show ?case
  proof (cases "rmatch True timePattern ([], p, x # xs)")
    case Nil
    with timePattern_at_digit [of x p xs] have "\<not> is_digit x" by auto
    with Cons.prems have "\<exists>c \<in> set xs. is_digit c" by auto
    from Cons.IH [OF this] Nil show ?thesis by simp
  next
    case (Cons st sts)
    then show ?thesis by (cases st) simp
  qed
qed

lemma relative_has_digit:
  assumes "match False relativeDayPattern n = Some m"
  shows "\<exists>c \<in> set n. is_digit c"
proof -
  from assms have "search False relativeDayPattern None n = Some m" by (simp add: match_def)
  from search_hit [OF this] obtain p0 s0 p' s' u where
    n: "n = u @ s0" and h: "(m, p', s') \<in> set (rmatch False relativeDayPattern ([], p0, s0))" by blast
  from h obtain st1 where o: "st1 \<in> set (rmatch False (Opt (Seq (Lit ''in'') (Rep Space 1 None))) ([], p0, s0))"
    and r1: "(m, p', s') \<in> set (rmatch False (Seq (Grp 1 (Rep Digit 1 None))
         (Seq (Rep Space 1 None) (Seq (Lit ''day'') (Opt (Lit ''s''))))) st1)"
    unfolding relativeDayPattern_def by (rule rmatch_SeqE)
  obtain c1 p1 s1 where st1: "st1 = (c1, p1, s1)" by (cases st1)
  from rmatch_required [OF o [unfolded st1]] obtain u1 where s0: "s0 = u1 @ s1" by blast
  from r1 obtain st2 where g: "st2 \<in> set (rmatch False (Grp 1 (Rep Digit 1 None)) (c1, p1, s1))"
    unfolding st1 by (rule rmatch_SeqE)
  obtain c2 p2 s2 where st2: "st2 = (c2, p2, s2)" by (cases st2)
  from g [unfolded st2] obtain c0 where "(c0, p2, s2) \<in> set (rmatch False (Rep Digit 1 None) (c1, p1, s1))"
    by (rule rmatch_GrpE)
  then have "1 \<le> length (takeWhile is_digit s1)" by (auto simp: Let_def in_class_Digit)
  then obtain x xs where "s1 = x # xs" "is_digit x" by (cases s1) (auto split: if_splits)
  with n s0 show ?thesis by auto
qed







lemma rmatch_AltE:
  assumes "st' \<in> set (rmatch ci (Alt a b) st)"
  obtains "st' \<in> set (rmatch ci a st)" | "st' \<in> set (rmatch ci b st)"
  using assms by auto







section \<open>The parser: input that no pattern recognises\<close>




section \<open>The parser: normalising twice\<close>

lemma parseTimeForDate_shape:
  "set (datetime (parseTimeForDate n d z)) \<subseteq> stamp_chars
   \<and> (isAllDay (parseTimeForDate n d z) \<longleftrightarrow> CHR ''T'' \<notin> set (datetime (parseTimeForDate n d z)))"
proof (cases "match True timePattern n")
  case None
  then have r: "parseTimeForDate n d z = \<lparr>datetime = dateString d, isAllDay = True\<rparr>"
    by (simp add: parseTimeForDate_def)
  have "CHR ''T'' \<notin> set (dateString d)" using dateString_chars date_chars_no_T by blast
  moreover have "set (dateString d) \<subseteq> stamp_chars" using dateString_chars date_chars_stamp by blast
  ultimately show ?thesis by (simp add: r)
next
  case (Some m)
  then obtain d' where r: "parseTimeForDate n d z = \<lparr>datetime = dateTimeString d', isAllDay = False\<rparr>"
    by (simp add: parseTimeForDate_def Let_def)
  show ?thesis using dateTimeString_chars dateTimeString_has_T by (simp add: r)
qed

lemma trim_subset: "set (trim s) \<subseteq> set s"
proof -
  have "set (trim s) = set (dropWhile is_space (rev (dropWhile is_space s)))" by (simp add: trim_def)
  also have "\<dots> \<subseteq> set (rev (dropWhile is_space s))" by (meson set_dropWhileD subsetI)
  also have "\<dots> \<subseteq> set s" by (auto dest: set_dropWhileD)
  finally show ?thesis .
qed

lemma lower_char_d: "lower_char c = CHR ''d'' \<Longrightarrow> c = CHR ''d'' \<or> c = CHR ''D''"
  by (simp add: lower_char_def split: if_splits)

lemma lower_char_o: "lower_char c = CHR ''o'' \<Longrightarrow> c = CHR ''o'' \<or> c = CHR ''O''"
  by (simp add: lower_char_def split: if_splits)

lemma stamp_chars_no_d: "CHR ''d'' \<notin> stamp_chars" "CHR ''D'' \<notin> stamp_chars"
  "CHR ''o'' \<notin> stamp_chars" "CHR ''O'' \<notin> stamp_chars"
  by (simp_all add: stamp_chars_def)

lemma lower_stamp_chars:
  assumes "set v \<subseteq> stamp_chars"
  shows "CHR ''d'' \<notin> set (trim (toLowerCase v))" and "CHR ''o'' \<notin> set (trim (toLowerCase v))"
proof -
  have sub: "set (trim (toLowerCase v)) \<subseteq> lower_char ` set v"
    using trim_subset [of "toLowerCase v"] by (simp add: toLowerCase_def)
  show "CHR ''d'' \<notin> set (trim (toLowerCase v))"
  proof
    assume "CHR ''d'' \<in> set (trim (toLowerCase v))"
    with sub obtain c where c: "c \<in> set v" "lower_char c = CHR ''d''" by force
    from lower_char_d [OF c(2)] c(1) assms have "CHR ''d'' \<in> stamp_chars \<or> CHR ''D'' \<in> stamp_chars"
      by auto
    with stamp_chars_no_d show False by simp
  qed
  show "CHR ''o'' \<notin> set (trim (toLowerCase v))"
  proof
    assume "CHR ''o'' \<in> set (trim (toLowerCase v))"
    with sub obtain c where c: "c \<in> set v" "lower_char c = CHR ''o''" by force
    from lower_char_o [OF c(2)] c(1) assms have "CHR ''o'' \<in> stamp_chars \<or> CHR ''O'' \<in> stamp_chars"
      by auto
    with stamp_chars_no_d show False by simp
  qed
qed

lemma stamp_unrecognized:
  assumes "set v \<subseteq> stamp_chars"
  shows "unrecognized v"
proof -
  let ?n = "trim (toLowerCase v)"
  from lower_stamp_chars [OF assms] have d: "CHR ''d'' \<notin> set ?n" and o: "CHR ''o'' \<notin> set ?n" .
  have 1: "\<not> js_includes ?n ''today''" using js_includes_subset [of ?n "''today''"] d by auto
  have 2: "\<not> js_includes ?n ''tomorrow''" using js_includes_subset [of ?n "''tomorrow''"] o by auto
  have 3: "\<not> js_includes ?n ''yesterday''" using js_includes_subset [of ?n "''yesterday''"] d by auto
  from 1 2 3 no_d_no_relative [OF d] no_d_no_weekday [OF d] show ?thesis
    by (simp add: unrecognized_def)
qed

lemma parse_unrecognized:
  assumes "clock (zoneName tz) = Inr now" and "unrecognized x"
  shows "parseNaturalDateTime clock x tz = Inr \<lparr>datetime = x, isAllDay = (CHR ''T'' \<notin> set x)\<rparr>"
  using assms by (simp add: parseNaturalDateTime_def unrecognized_def js_includes_char)

lemma parse_cases:
  assumes "parseNaturalDateTime clock x tz = Inr r"
  obtains now d where "clock (zoneName tz) = Inr now"
      and "r = parseTimeForDate (trim (toLowerCase x)) d (zoneName tz)"
    | now where "clock (zoneName tz) = Inr now" and "unrecognized x"
proof (cases "clock (zoneName tz)")
  case (Inl e)
  with assms show ?thesis by (simp add: parseNaturalDateTime_def)
next
  case (Inr now)
  show ?thesis
  proof (cases "unrecognized x")
    case True
    with Inr that(2) show ?thesis by blast
  next
    case False
    with assms Inr have "\<exists>d. r = parseTimeForDate (trim (toLowerCase x)) d (zoneName tz)"
      by (auto simp: parseNaturalDateTime_def unrecognized_def Let_def split: if_splits option.splits)
    with Inr that(1) show ?thesis by blast
  qed
qed

lemma monday_now: "monday_clock (zoneName None) = Inr (LocalMs (19737 * 86400000 + 9 * 3600000))"
  by (simp add: monday_clock_def zoneName_def)

text \<open>
  Claim C3. At a fixed current instant, whenever \<open>parseNaturalDateTime\<close> returns a
  result for an input and a time zone, parsing the \<open>datetime\<close> of that result again
  returns the same result: the same string and the same all-day flag. This covers the inputs
  that a pattern recognises and those passed through.
\<close>

theorem normalize_idempotent:
  assumes "parseNaturalDateTime clock x tz = Inr r"
  shows "parseNaturalDateTime clock (datetime r) tz = Inr r"
  using assms
proof (cases rule: parse_cases)
  case (1 now d)
  from parseTimeForDate_shape [of "trim (toLowerCase x)" d "zoneName tz"] 1(2)
  have s: "set (datetime r) \<subseteq> stamp_chars" and a: "isAllDay r \<longleftrightarrow> CHR ''T'' \<notin> set (datetime r)"
    by simp_all
  from parse_unrecognized [where clock = clock and tz = tz and x = "datetime r", OF 1(1) stamp_unrecognized [OF s]]
  have "parseNaturalDateTime clock (datetime r) tz
          = Inr \<lparr>datetime = datetime r, isAllDay = (CHR ''T'' \<notin> set (datetime r))\<rparr>" .
  with a show ?thesis by simp
next
  case (2 now)
  from parse_unrecognized [where clock = clock and tz = tz and x = x, OF 2] assms have "r = \<lparr>datetime = x, isAllDay = (CHR ''T'' \<notin> set x)\<rparr>"
    by simp
  with parse_unrecognized [where clock = clock and tz = tz and x = x, OF 2] show ?thesis by simp
qed

text \<open>``today 8pm'' on Monday 2024-01-15, and its result parsed again.\<close>

theorem normalize_idempotent_witness:
  "parseNaturalDateTime monday_clock ''today 8pm'' None
     = Inr \<lparr>datetime = ''2024-01-15T20:00:00'', isAllDay = False\<rparr>
   \<and> parseNaturalDateTime monday_clock ''2024-01-15T20:00:00'' None
     = Inr \<lparr>datetime = ''2024-01-15T20:00:00'', isAllDay = False\<rparr>"
proof -
  have a: "parseNaturalDateTime monday_clock ''today 8pm'' None
     = Inr \<lparr>datetime = ''2024-01-15T20:00:00'', isAllDay = False\<rparr>"
    by code_simp
  from normalize_idempotent [OF a] a show ?thesis by simp
qed


section \<open>The parser: weekday names\<close>

lemma indexOf_dayNames:
  assumes "name \<in> set dayNames"
  shows "0 \<le> indexOf dayNames name \<and> indexOf dayNames name \<le> 6"
  using assms by (auto simp: dayNames_def)

lemma Day_add: "Day (t + k * msPerDay) = Day t + k"
  by (simp add: Day_def msPerDay_def)

lemma mod7_small:
  fixes x :: int
  assumes "0 \<le> x" "x < 14"
  shows "x mod 7 = (if x < 7 then x else x - 7)"
proof (cases "x < 7")
  case True
  with assms show ?thesis by simp
next
  case False
  have "x = 7 * 1 + (x - 7)" by simp
  then have "x mod 7 = x - 7"
    using False assms by (intro int_mod_pos_eq [where q = 1]) auto
  then show ?thesis using False by simp
qed

lemma next_weekday_offset:
  fixes D w :: int
  assumes w: "0 \<le> w" "w \<le> 6"
  defines "cur \<equiv> (D + 4) mod 7"
  defines "k \<equiv> (if js_rem (w - cur + 7) 7 = 0 then 7 else js_rem (w - cur + 7) 7)"
  shows "1 \<le> k" "k \<le> 7" "(D + k + 4) mod 7 = w"
    "\<And>j. 1 \<le> j \<Longrightarrow> j < k \<Longrightarrow> (D + j + 4) mod 7 \<noteq> w"
    "cur = w \<Longrightarrow> k = 7"
proof -
  have c: "0 \<le> cur" "cur \<le> 6" by (simp_all add: cur_def)
  have "(w - cur + 7) mod 7 = (if w - cur + 7 < 7 then w - cur + 7 else w - cur + 7 - 7)"
    using c w by (intro mod7_small) auto
  moreover have "\<not> w - cur + 7 < 0" using c w by auto
  ultimately have r: "js_rem (w - cur + 7) 7 = (if w - cur + 7 < 7 then w - cur + 7 else w - cur)"
    unfolding js_rem_def by (simp only: if_False) auto
  have k: "k = (if w = cur then 7 else if w < cur then w - cur + 7 else w - cur)"
    unfolding k_def r using c w by auto
  have shift: "\<And>j. (D + j + 4) mod 7 = (cur + j) mod 7"
  proof -
    fix j
    have "D + j + 4 = (D + 4) + j" by arith
    then have "(D + j + 4) mod 7 = ((D + 4) + j) mod 7" by (rule arg_cong)
    also have "\<dots> = ((D + 4) mod 7 + j) mod 7" by (simp only: mod_add_left_eq)
    finally show "(D + j + 4) mod 7 = (cur + j) mod 7" by (simp add: cur_def)
  qed
  show k1: "1 \<le> k" using c w unfolding k by auto
  show k7: "k \<le> 7" using c w unfolding k by auto
  have "(cur + k) mod 7 = w"
    using c w k1 k7 by (subst mod7_small) (auto simp: k)
  then show "(D + k + 4) mod 7 = w" by (simp add: shift)
  show "\<And>j. 1 \<le> j \<Longrightarrow> j < k \<Longrightarrow> (D + j + 4) mod 7 \<noteq> w"
  proof -
    fix j :: int
    assume j: "1 \<le> j" "j < k"
    have "(cur + j) mod 7 = (if cur + j < 7 then cur + j else cur + j - 7)"
      using c j k7 by (intro mod7_small) auto
    then have "(cur + j) mod 7 \<noteq> w"
      using c w j unfolding k by (auto split: if_splits)
    then show "(D + j + 4) mod 7 \<noteq> w" by (simp add: shift)
  qed
  show "cur = w \<Longrightarrow> k = 7" unfolding k by simp
qed


lemma getNextWeekdayDate_next:
  assumes range: "- 8640000000000000 \<le> t" "t + 7 * msPerDay \<le> 8640000000000000"
      and w: "0 \<le> w" "w \<le> 6"
  shows "\<exists>k. 1 \<le> k \<and> k \<le> 7
           \<and> getNextWeekdayDate (LocalMs t) w = LocalMs (t + k * msPerDay)
           \<and> getDay (LocalMs (t + k * msPerDay)) = Some w
           \<and> (\<forall>j. 1 \<le> j \<and> j < k \<longrightarrow> getDay (LocalMs (t + j * msPerDay)) \<noteq> Some w)
           \<and> (getDay (LocalMs t) = Some w \<longrightarrow> k = 7)"
proof -
  define cur where "cur = (Day t + 4) mod 7"
  define k where "k = (if js_rem (w - cur + 7) 7 = 0 then 7 else js_rem (w - cur + 7) 7)"
  note o = next_weekday_offset [OF w, where D = "Day t", folded cur_def, folded k_def]
  have pos: "0 < msPerDay" by (simp add: msPerDay_def)
  have "k * msPerDay \<le> 7 * msPerDay" using o(2) pos by simp
  moreover have "0 \<le> k * msPerDay" using o(1) pos by simp
  ultimately have "\<bar>t + k * msPerDay\<bar> \<le> 8640000000000000" using range by linarith
  then have clip: "timeClip (t + k * msPerDay) = LocalMs (t + k * msPerDay)" by (simp add: timeClip_def)
  have "getNextWeekdayDate (LocalMs t) w = addDays (LocalMs t) (Some k)"
    by (simp add: getNextWeekdayDate_def getDay_def Let_def cur_def [symmetric] k_def)
  then have g: "getNextWeekdayDate (LocalMs t) w = LocalMs (t + k * msPerDay)"
    using clip by (simp add: addDays_def)
  have d: "\<And>j. getDay (LocalMs (t + j * msPerDay)) = Some ((Day t + j + 4) mod 7)"
    by (simp add: getDay_def Day_add)
  have 1: "getDay (LocalMs (t + k * msPerDay)) = Some w" using o(3) by (simp add: d)
  have 2: "\<forall>j. 1 \<le> j \<and> j < k \<longrightarrow> getDay (LocalMs (t + j * msPerDay)) \<noteq> Some w"
    using o(4) by (simp add: d)
  have 3: "getDay (LocalMs t) = Some w \<longrightarrow> k = 7"
    using o(5) by (simp add: getDay_def cur_def)
  from o(1,2) g 1 2 3 show ?thesis by blast
qed

text \<open>
  Claim C5, as stated, fails: an input may contain a weekday name and still be resolved by an
  earlier pattern. On Monday 2024-01-15 the input ``friday today'' contains \<^verbatim>\<open>friday\<close>,
  which the weekday pattern matches, yet the result is the current date, 2024-01-15, not the
  Friday after it, 2024-01-19.
\<close>

theorem weekday_every_input_counterexample:
  "js_includes (trim (toLowerCase ''friday today'')) ''friday''
   \<and> match False dayPattern (trim (toLowerCase ''friday today'')) = Some [(1, ''friday'')]
   \<and> getDay (LocalMs (19737 * 86400000 + 9 * 3600000)) = Some 1
   \<and> parseNaturalDateTime monday_clock ''friday today'' None
       = Inr \<lparr>datetime = ''2024-01-15'', isAllDay = True\<rparr>
   \<and> parseTimeForDate (trim (toLowerCase ''friday today''))
        (getNextWeekdayDate (LocalMs (19737 * 86400000 + 9 * 3600000)) (indexOf dayNames ''friday''))
        ''UTC''
       = \<lparr>datetime = ''2024-01-19'', isAllDay = True\<rparr>"
proof -
  have 1: "js_includes (trim (toLowerCase ''friday today'')) ''friday''" by code_simp
  have 2: "match False dayPattern (trim (toLowerCase ''friday today'')) = Some [(1, ''friday'')]"
    by code_simp
  have 3: "getDay (LocalMs (19737 * 86400000 + 9 * 3600000)) = Some 1" by code_simp
  have 4: "parseNaturalDateTime monday_clock ''friday today'' None
       = Inr \<lparr>datetime = ''2024-01-15'', isAllDay = True\<rparr>" by code_simp
  have 5: "parseTimeForDate (trim (toLowerCase ''friday today''))
        (getNextWeekdayDate (LocalMs (19737 * 86400000 + 9 * 3600000)) (indexOf dayNames ''friday''))
        ''UTC''
       = \<lparr>datetime = ''2024-01-19'', isAllDay = True\<rparr>" by code_simp
  from 1 2 3 4 5 show ?thesis by blast
qed

text \<open>
  Claim C5, amended. When the current date is valid and at least a week before the end of the
  range of dates, none of \<^verbatim>\<open>today\<close>, \<^verbatim>\<open>tomorrow\<close>, \<^verbatim>\<open>yesterday\<close> and the
  relative-days pattern matches the trimmed, lower-cased input, and the weekday pattern matches
  it (a weekday name between word boundaries), then the anchor date handed to the
  time-of-day extraction is the current date plus \<open>k\<close> days with \<open>1 \<le> k \<le> 7\<close>: it falls
  on the named weekday, no day strictly between the current date and it does, and \<open>k = 7\<close> when
  the current date itself falls on the named weekday.
\<close>

theorem weekday_next_occurrence:
  assumes clock: "clock (zoneName tz) = Inr (LocalMs t)"
      and range: "- 8640000000000000 \<le> t" "t + 7 * msPerDay \<le> 8640000000000000"
      and earlier: "\<not> js_includes (trim (toLowerCase x)) ''today''"
                   "\<not> js_includes (trim (toLowerCase x)) ''tomorrow''"
                   "\<not> js_includes (trim (toLowerCase x)) ''yesterday''"
                   "match False relativeDayPattern (trim (toLowerCase x)) = None"
      and day: "match False dayPattern (trim (toLowerCase x)) = Some m"
  shows "\<exists>name k. name \<in> set dayNames \<and> group m 1 = Some name \<and> 1 \<le> k \<and> k \<le> 7
           \<and> parseNaturalDateTime clock x tz
               = Inr (parseTimeForDate (trim (toLowerCase x)) (LocalMs (t + k * msPerDay)) (zoneName tz))
           \<and> getDay (LocalMs (t + k * msPerDay)) = Some (indexOf dayNames name)
           \<and> (\<forall>j. 1 \<le> j \<and> j < k \<longrightarrow>
                  getDay (LocalMs (t + j * msPerDay)) \<noteq> Some (indexOf dayNames name))
           \<and> (getDay (LocalMs t) = Some (indexOf dayNames name) \<longrightarrow> k = 7)"
proof -
  from dayPattern_capture [OF day] obtain name where
    name: "name \<in> set dayNames" and m: "m = [(1, name)]" by blast
  then have grp: "group m 1 = Some name" by (simp add: group_def)
  from indexOf_dayNames [OF name] have w: "0 \<le> indexOf dayNames name" "indexOf dayNames name \<le> 6"
    by simp_all
  from getNextWeekdayDate_next [OF range w] obtain k where
    k: "1 \<le> k" "k \<le> 7"
       "getNextWeekdayDate (LocalMs t) (indexOf dayNames name) = LocalMs (t + k * msPerDay)"
       "getDay (LocalMs (t + k * msPerDay)) = Some (indexOf dayNames name)"
       "\<forall>j. 1 \<le> j \<and> j < k \<longrightarrow> getDay (LocalMs (t + j * msPerDay)) \<noteq> Some (indexOf dayNames name)"
       "getDay (LocalMs t) = Some (indexOf dayNames name) \<longrightarrow> k = 7"
    by blast
  have "parseNaturalDateTime clock x tz
          = Inr (parseTimeForDate (trim (toLowerCase x))
                   (getNextWeekdayDate (LocalMs t) (indexOf dayNames name)) (zoneName tz))"
    using clock earlier day grp by (simp add: parseNaturalDateTime_def Let_def)
  with k(3) have "parseNaturalDateTime clock x tz
          = Inr (parseTimeForDate (trim (toLowerCase x)) (LocalMs (t + k * msPerDay)) (zoneName tz))"
    by simp
  with name grp k(1,2,4,5,6) show ?thesis by blast
qed

text \<open>``Friday 5pm'' on Monday 2024-01-15.\<close>

theorem weekday_next_occurrence_witness:
  "monday_clock (zoneName None) = Inr (LocalMs (19737 * 86400000 + 9 * 3600000))
   \<and> - 8640000000000000 \<le> (19737 * 86400000 + 9 * 3600000 :: int)
   \<and> 19737 * 86400000 + 9 * 3600000 + 7 * msPerDay \<le> 8640000000000000
   \<and> \<not> js_includes (trim (toLowerCase ''Friday 5pm'')) ''today''
   \<and> \<not> js_includes (trim (toLowerCase ''Friday 5pm'')) ''tomorrow''
   \<and> \<not> js_includes (trim (toLowerCase ''Friday 5pm'')) ''yesterday''
   \<and> match False relativeDayPattern (trim (toLowerCase ''Friday 5pm'')) = None
   \<and> match False dayPattern (trim (toLowerCase ''Friday 5pm'')) = Some [(1, ''friday'')]
   \<and> (\<exists>k. 1 \<le> k \<and> k \<le> 7
         \<and> parseNaturalDateTime monday_clock ''Friday 5pm'' None
             = Inr (parseTimeForDate (trim (toLowerCase ''Friday 5pm''))
                      (LocalMs (19737 * 86400000 + 9 * 3600000 + k * msPerDay)) (zoneName None))
         \<and> getDay (LocalMs (19737 * 86400000 + 9 * 3600000 + k * msPerDay)) = Some 5)"
proof -
  have n: "trim (toLowerCase ''Friday 5pm'') = ''friday 5pm''" by code_simp
  have r1: "- 8640000000000000 \<le> (19737 * 86400000 + 9 * 3600000 :: int)" by simp
  have r2: "19737 * 86400000 + 9 * 3600000 + 7 * msPerDay \<le> 8640000000000000"
    by (simp add: msPerDay_def)
  have e1: "\<not> js_includes (trim (toLowerCase ''Friday 5pm'')) ''today''" unfolding n by code_simp
  have e2: "\<not> js_includes (trim (toLowerCase ''Friday 5pm'')) ''tomorrow''" unfolding n by code_simp
  have e3: "\<not> js_includes (trim (toLowerCase ''Friday 5pm'')) ''yesterday''" unfolding n by code_simp
  have e4: "match False relativeDayPattern (trim (toLowerCase ''Friday 5pm'')) = None"
    unfolding n by code_simp
  have d: "match False dayPattern (trim (toLowerCase ''Friday 5pm'')) = Some [(1, ''friday'')]"
    unfolding n by code_simp
  have i: "\<And>name. group [(1, ''friday'')] 1 = Some name \<Longrightarrow> indexOf dayNames name = 5"
    by (auto simp: group_def dayNames_def)
  from weekday_next_occurrence [where clock = monday_clock and tz = None and x = "''Friday 5pm''",
      OF monday_now r1 r2 e1 e2 e3 e4 d] i
  have "\<exists>k. 1 \<le> k \<and> k \<le> 7
         \<and> parseNaturalDateTime monday_clock ''Friday 5pm'' None
             = Inr (parseTimeForDate (trim (toLowerCase ''Friday 5pm''))
                      (LocalMs (19737 * 86400000 + 9 * 3600000 + k * msPerDay)) (zoneName None))
         \<and> getDay (LocalMs (19737 * 86400000 + 9 * 3600000 + k * msPerDay)) = Some 5"
    by metis
  with monday_now r1 r2 e1 e2 e3 e4 d show ?thesis by blast
qed


text \<open>The weekday pattern asks for word boundaries: on ``fridays'' no pattern matches.\<close>

lemma weekday_needs_word_boundary:
  "parseNaturalDateTime monday_clock ''fridays'' None = Inr \<lparr>datetime = ''fridays'', isAllDay = True\<rparr>"
  by code_simp


section \<open>The parser: time of day\<close>







text \<open>
  With hours below 24 and minutes below 60 nothing carries over: the result keeps the date of
  the anchor and shows the hours and minutes, two digits each.
\<close>

lemma setHours_within_day:
  assumes range: "- 8640000000000000 \<le> t" "t + msPerDay \<le> 8640000000000000"
      and hm: "h < 24" "mi < 60"
  shows "setHours (LocalMs t) (Some h) (Some mi)
           = LocalMs (Day t * msPerDay + int h * 3600000 + int mi * 60000)"
    and "getFullYear (setHours (LocalMs t) (Some h) (Some mi)) = getFullYear (LocalMs t)"
    and "getMonth (setHours (LocalMs t) (Some h) (Some mi)) = getMonth (LocalMs t)"
    and "getDate (setHours (LocalMs t) (Some h) (Some mi)) = getDate (LocalMs t)"
    and "getHours (setHours (LocalMs t) (Some h) (Some mi)) = Some (int h)"
    and "getMinutes (setHours (LocalMs t) (Some h) (Some mi)) = Some (int mi)"
proof -
  define r where "r = int h * 3600000 + int mi * 60000"
  define t' where "t' = Day t * msPerDay + r"
  have r: "0 \<le> r" "r < msPerDay" using hm by (simp_all add: r_def msPerDay_def)
  have lo: "Day t * msPerDay \<le> t" and hi: "t < Day t * msPerDay + msPerDay"
  proof -
    have "t = Day t * msPerDay + t mod msPerDay" by (simp add: Day_def)
    moreover have "0 \<le> t mod msPerDay" "t mod msPerDay < msPerDay" by (simp_all add: msPerDay_def)
    ultimately show "Day t * msPerDay \<le> t" "t < Day t * msPerDay + msPerDay" by linarith+
  qed
  have "- 100000000 \<le> Day t"
  proof -
    have "(- 8640000000000000 :: int) div 86400000 \<le> t div 86400000"
      using range(1) by (rule zdiv_mono1) simp
    then show ?thesis by (simp add: Day_def msPerDay_def)
  qed
  then have "- 8640000000000000 \<le> Day t * msPerDay" by (simp add: msPerDay_def)
  with r lo hi range have "\<bar>t'\<bar> \<le> 8640000000000000" unfolding t'_def by linarith
  then have clip: "timeClip t' = LocalMs t'" by (simp add: timeClip_def)
  show s: "setHours (LocalMs t) (Some h) (Some mi)
           = LocalMs (Day t * msPerDay + int h * 3600000 + int mi * 60000)"
    using clip by (simp add: setHours_def t'_def r_def add.assoc)
  have day: "Day (Day t * msPerDay + int h * 3600000 + int mi * 60000) = Day t"
  proof -
    have "(Day t * msPerDay + r) div msPerDay = Day t + r div msPerDay"
      by (simp add: msPerDay_def)
    also have "r div msPerDay = 0" using r by simp
    finally show ?thesis by (simp add: Day_def r_def add.assoc)
  qed
  show "getFullYear (setHours (LocalMs t) (Some h) (Some mi)) = getFullYear (LocalMs t)"
    by (simp add: s getFullYear_def day)
  show "getMonth (setHours (LocalMs t) (Some h) (Some mi)) = getMonth (LocalMs t)"
    by (simp add: s getMonth_def day)
  show "getDate (setHours (LocalMs t) (Some h) (Some mi)) = getDate (LocalMs t)"
    by (simp add: s getDate_def day)
  have e: "Day t * msPerDay + int h * 3600000 + int mi * 60000
             = 3600000 * (24 * Day t + int h) + int mi * 60000"
    by (simp add: msPerDay_def)
  have "(3600000 * (24 * Day t + int h) + int mi * 60000) div 3600000
          = 24 * Day t + int h + (int mi * 60000) div 3600000"
    by simp
  also have "(int mi * 60000) div 3600000 = 0" using hm by simp
  finally have "(Day t * msPerDay + int h * 3600000 + int mi * 60000) div 3600000 = 24 * Day t + int h"
    unfolding e by simp
  moreover have "(24 * Day t + int h) mod 24 = int h" using hm by simp
  ultimately show "getHours (setHours (LocalMs t) (Some h) (Some mi)) = Some (int h)"
    by (simp add: s getHours_def)
  have e2: "Day t * msPerDay + int h * 3600000 + int mi * 60000
             = 60000 * (1440 * Day t + 60 * int h + int mi)"
    by (simp add: msPerDay_def)
  have "(1440 * Day t + 60 * int h + int mi) mod 60 = int mi mod 60"
  proof -
    have "1440 * Day t + 60 * int h + int mi = int mi + 60 * (24 * Day t + int h)" by simp
    then show ?thesis by (simp only: mod_mult_self2)
  qed
  then have "(1440 * Day t + 60 * int h + int mi) mod 60 = int mi" using hm by simp
  then show "getMinutes (setHours (LocalMs t) (Some h) (Some mi)) = Some (int mi)"
    by (simp add: s getMinutes_def e2)
qed

lemma dateTimeString_within_day:
  assumes "- 8640000000000000 \<le> t" "t + msPerDay \<le> 8640000000000000" "h < 24" "mi < 60"
  shows "dateTimeString (setHours (LocalMs t) (Some h) (Some mi))
           = dateString (LocalMs t) @ ''T'' @ padStart2 (digits_of h) @ '':'' @
             padStart2 (digits_of mi) @ '':00''"
  using setHours_within_day(2-6) [OF assms]
  by (simp add: dateTimeString_def dateString_def js_String_def string_of_int_def)


section \<open>The parser: relative days\<close>

text \<open>
  An input that the relative-days pattern matches contains a digit, so the time pattern matches
  it as well: the result of \<open>parseNaturalDateTime\<close> is then never all-day.
\<close>

lemma relative_never_all_day:
  assumes rel: "match False relativeDayPattern (trim (toLowerCase x)) = Some m"
      and res: "parseNaturalDateTime clock x tz = Inr r"
  shows "\<not> isAllDay r"
proof -
  from relative_has_digit [OF rel] have "match True timePattern (trim (toLowerCase x)) \<noteq> None"
    unfolding match_def by (rule search_timePattern_digit)
  then have t: "\<And>d z. \<not> isAllDay (parseTimeForDate (trim (toLowerCase x)) d z)"
    by (auto simp: parseTimeForDate_def Let_def)
  from res show ?thesis
  proof (cases rule: parse_cases)
    case (1 now d)
    with t show ?thesis by simp
  next
    case (2 now)
    with rel show ?thesis by (simp add: unrecognized_def)
  qed
qed

text \<open>
  Claim C4 does not hold of the code. On Monday 2024-01-15 the input ``in 3 days'', which the
  relative-days pattern matches with \<open>N = 3\<close> and which names no time of day, gives the date
  three days later with the day count read as the hour, 03:00, and the all-day flag false.
\<close>

theorem relative_days_take_count_as_hour:
  "match False relativeDayPattern (trim (toLowerCase ''in 3 days'')) = Some [(1, ''3'')]
   \<and> parseNaturalDateTime monday_clock ''in 3 days'' None
       = Inr \<lparr>datetime = ''2024-01-18T03:00:00'', isAllDay = False\<rparr>"
proof -
  have 1: "match False relativeDayPattern (trim (toLowerCase ''in 3 days'')) = Some [(1, ''3'')]"
    by code_simp
  have 2: "parseNaturalDateTime monday_clock ''in 3 days'' None
       = Inr \<lparr>datetime = ''2024-01-18T03:00:00'', isAllDay = False\<rparr>"
    by code_simp
  from 1 2 show ?thesis by blast
qed


section \<open>Event creation: the duplicate gate and the detection options\<close>

lemma resolveTimezone_calls:
  assumes "resolveTimezone env args = (r, tr)"
  shows "inserts tr = []" and "detections tr = []"
  using assms by (auto simp: resolveTimezone_def inserts_def detections_def split: option.splits if_splits)

lemma createEvent_try_detections: "detections (snd (createEvent_try env args)) = []"
proof -
  obtain r tr where rt: "resolveTimezone env args = (r, tr)" by (cases "resolveTimezone env args")
  from resolveTimezone_calls(2) [OF rt] have d: "detections tr = []" .
  have app: "\<And>a b. detections (a @ b) = detections a @ detections b" by (simp add: detections_def)
  have g: "detections [GetTokenInfo] = []" by (simp add: detections_def)
  have e: "\<And>q. detections [GetTokenInfo, EventsInsert q] = []" by (simp add: detections_def)
  have n: "detections [] = []" by (simp add: detections_def)
  show ?thesis
    unfolding createEvent_try_def rt Let_def
    by (simp add: d app g e n split: option.split sum.split split del: if_split)
qed

lemma createEvent_detections: "detections (snd (createEvent env args)) = []"
proof -
  obtain r tr where ct: "createEvent_try env args = (r, tr)" by (cases "createEvent_try env args")
  from createEvent_try_detections [of env args] ct have "detections tr = []" by simp
  then show ?thesis by (cases r) (simp_all add: createEvent_def ct)
qed

lemma createEvent_not_duplicate: "fst (createEvent env args) \<noteq> Inl (DuplicateEventError m)"
proof -
  obtain r tr where ct: "createEvent_try env args = (r, tr)" by (cases "createEvent_try env args")
  show ?thesis by (cases r) (simp_all add: createEvent_def ct)
qed

lemma find_blocking:
  assumes "d \<in> set ds" and "P d"
  obtains d0 where "find P ds = Some d0" and "d0 \<in> set ds" and "P d0"
proof -
  from assms have "find P ds \<noteq> None" by (auto simp: find_None_iff)
  then obtain d0 where f: "find P ds = Some d0" by auto
  then have "d0 \<in> set ds \<and> P d0" by (auto simp: find_Some_iff)
  with f that show thesis by blast
qed

text \<open>
  Claim C1. When the detection service has returned its report, the report holds a duplicate
  whose similarity is at or above the blocking threshold, and the caller has not set
  \<^verbatim>\<open>allowDuplicates\<close> to \<^verbatim>\<open>true\<close>, then \<open>runTool\<close> throws the duplicate
  error for the first such duplicate without calling \<^verbatim>\<open>calendar.events.insert\<close>;
  the message contains the duplicate's title, its similarity times 100, rounded and followed
  by \<^verbatim>\<open>%\<close>, and the instruction to set \<^verbatim>\<open>allowDuplicates\<close> to true.
\<close>

theorem duplicate_blocks_creation:
  assumes tz: "resolveTimezone env args = (Inr timezone, tr0)"
      and rep: "checkConflicts env (eventToCheck env args timezone) (calendarId args)
                  (detectionOptions cfg args) = Inr detected"
      and d: "d \<in> set (duplicates detected)" "BLOCKING cfg \<le> similarity (event d)"
      and allow: "allowDuplicates args \<noteq> Some True"
  shows "\<exists>d0 \<in> set (duplicates detected).
           BLOCKING cfg \<le> similarity (event d0)
         \<and> fst (runTool cfg env args) = Inl (DuplicateEventError (duplicateMessage d0))
         \<and> inserts (snd (runTool cfg env args)) = []
         \<and> js_includes (duplicateMessage d0) (title (event d0))
         \<and> js_includes (duplicateMessage d0)
              (string_of_int (Math_round (similarity (event d0) * 100)) @ ''%'')
         \<and> js_includes (duplicateMessage d0) ''set allowDuplicates to true''"
proof -
  from d obtain d0 where f: "find (\<lambda>dup. BLOCKING cfg \<le> similarity (event dup)) (duplicates detected) = Some d0"
    and d0: "d0 \<in> set (duplicates detected)" "BLOCKING cfg \<le> similarity (event d0)"
    by (rule find_blocking [where P = "\<lambda>dup. BLOCKING cfg \<le> similarity (event dup)"])
  from resolveTimezone_calls(1) [OF tz] have i0: "inserts tr0 = []" .
  have run: "runTool cfg env args =
      (Inl (DuplicateEventError (duplicateMessage d0)),
       tr0 @ [CheckConflicts (eventToCheck env args timezone) (calendarId args) (detectionOptions cfg args)])"
    using allow by (simp add: runTool_def tz rep f Let_def)
  have r1: "fst (runTool cfg env args) = Inl (DuplicateEventError (duplicateMessage d0))"
    by (simp add: run)
  have r2: "inserts (snd (runTool cfg env args)) = []"
    using i0 by (simp add: run inserts_def)
  have m1: "js_includes (duplicateMessage d0) (title (event d0))"
    unfolding duplicateMessage_def
    using js_includes_append [of "''Duplicate event detected ('' @ string_of_int (Math_round (similarity (event d0) * 100)) @ ''% similar). '' @ ''Event \"''" "title (event d0)" "''\" already exists. '' @ ''To create anyway, set allowDuplicates to true.''"]
    by simp
  have m2: "js_includes (duplicateMessage d0) (string_of_int (Math_round (similarity (event d0) * 100)) @ ''%'')"
    unfolding duplicateMessage_def
    using js_includes_append [of "''Duplicate event detected (''" "string_of_int (Math_round (similarity (event d0) * 100)) @ ''%''" "'' similar). '' @ ''Event \"'' @ title (event d0) @ ''\" already exists. '' @ ''To create anyway, set allowDuplicates to true.''"]
    by simp
  have m3: "js_includes (duplicateMessage d0) ''set allowDuplicates to true''"
    unfolding duplicateMessage_def
    using js_includes_append [of "''Duplicate event detected ('' @ string_of_int (Math_round (similarity (event d0) * 100)) @ ''% similar). '' @ ''Event \"'' @ title (event d0) @ ''\" already exists. '' @ ''To create anyway, ''" "''set allowDuplicates to true''" "''.''"]
    by simp
  from d0 r1 r2 m1 m2 m3 show ?thesis by blast
qed

text \<open>
  Claim C2. When the detection service has returned its report, \<open>runTool\<close> throws the
  duplicate error if and only if some reported duplicate has a similarity at or above the
  blocking threshold and \<^verbatim>\<open>allowDuplicates\<close> is not \<^verbatim>\<open>true\<close>. The list of
  temporal conflicts \<open>cs\<close> is arbitrary and plays no part.
\<close>

theorem refusal_iff_blocking_duplicate:
  assumes tz: "resolveTimezone env args = (Inr timezone, tr0)"
      and rep: "checkConflicts env (eventToCheck env args timezone) (calendarId args)
                  (detectionOptions cfg args) = Inr \<lparr>conflicts = cs, duplicates = ds\<rparr>"
  shows "(\<exists>m. fst (runTool cfg env args) = Inl (DuplicateEventError m))
         \<longleftrightarrow> (\<exists>d \<in> set ds. BLOCKING cfg \<le> similarity (event d)) \<and> allowDuplicates args \<noteq> Some True"
proof (cases "(\<exists>d \<in> set ds. BLOCKING cfg \<le> similarity (event d)) \<and> allowDuplicates args \<noteq> Some True")
  case True
  then have "find (\<lambda>dup. BLOCKING cfg \<le> similarity (event dup)) ds \<noteq> None"
    by (auto simp: find_None_iff)
  with True have "\<exists>m. fst (runTool cfg env args) = Inl (DuplicateEventError m)"
    by (simp add: runTool_def tz rep Let_def)
  with True show ?thesis by blast
next
  case False
  then have nb: "\<not> (find (\<lambda>dup. BLOCKING cfg \<le> similarity (event dup)) ds \<noteq> None \<and> allowDuplicates args \<noteq> Some True)"
    by (auto simp: find_None_iff)
  obtain r tr where ce: "createEvent env args = (r, tr)" by (cases "createEvent env args")
  from createEvent_not_duplicate [of env args] ce have "\<And>m. r \<noteq> Inl (DuplicateEventError m)" by simp
  then have "\<And>m. fst (runTool cfg env args) \<noteq> Inl (DuplicateEventError m)"
    using nb by (cases r) (auto simp: runTool_def tz rep Let_def ce)
  with False show ?thesis by blast
qed

lemma runTool_detections:
  assumes tz: "resolveTimezone env args = (Inr timezone, tr0)"
  shows "detections (snd (runTool cfg env args))
           = [(eventToCheck env args timezone, calendarId args, detectionOptions cfg args)]"
proof -
  let ?c = "CheckConflicts (eventToCheck env args timezone) (calendarId args) (detectionOptions cfg args)"
  from resolveTimezone_calls(2) [OF tz] have d0: "detections tr0 = []" .
  obtain r tr where ce: "createEvent env args = (r, tr)" by (cases "createEvent env args")
  from createEvent_detections [of env args] ce have d2: "detections tr = []" by simp
  have app: "\<And>a b. detections (a @ b) = detections a @ detections b" by (simp add: detections_def)
  have one: "detections [?c] = [(eventToCheck env args timezone, calendarId args, detectionOptions cfg args)]"
    by (simp add: detections_def)
  have "snd (runTool cfg env args) = tr0 @ [?c] \<or> snd (runTool cfg env args) = (tr0 @ [?c]) @ tr"
    unfolding runTool_def tz Let_def ce
    by (cases r) (simp_all split: sum.split split del: if_split, simp_all)
  then show ?thesis
  proof
    assume "snd (runTool cfg env args) = tr0 @ [?c]"
    then show ?thesis by (simp only: app d0 one append_Nil)
  next
    assume "snd (runTool cfg env args) = (tr0 @ [?c]) @ tr"
    then show ?thesis by (simp only: app d0 d2 one append_Nil append_Nil2)
  qed
qed

text \<open>
  Claim C8. \<open>runTool\<close> runs the detection once, with conflict and duplicate checking both
  enabled; without \<^verbatim>\<open>calendarsToCheck\<close> the calendars checked are exactly the target
  calendar, and without \<^verbatim>\<open>duplicateSimilarityThreshold\<close> the detection threshold is
  0.7.
\<close>

theorem detection_defaults:
  assumes tz: "resolveTimezone env args = (Inr timezone, tr0)"
  shows "detections (snd (runTool CONFLICT_DETECTION_CONFIG env args))
           = [(eventToCheck env args timezone, calendarId args,
               detectionOptions CONFLICT_DETECTION_CONFIG args)]
         \<and> opt_checkConflicts (detectionOptions CONFLICT_DETECTION_CONFIG args)
         \<and> opt_checkDuplicates (detectionOptions CONFLICT_DETECTION_CONFIG args)
         \<and> (calendarsToCheck args = None \<longrightarrow>
              opt_calendarsToCheck (detectionOptions CONFLICT_DETECTION_CONFIG args) = [calendarId args])
         \<and> (duplicateSimilarityThreshold args = None \<longrightarrow>
              opt_duplicateSimilarityThreshold (detectionOptions CONFLICT_DETECTION_CONFIG args) = 7 / 10)"
proof -
  have 2: "opt_checkConflicts (detectionOptions CONFLICT_DETECTION_CONFIG args)
         \<and> opt_checkDuplicates (detectionOptions CONFLICT_DETECTION_CONFIG args)"
    by (simp add: detectionOptions_def)
  have 3: "calendarsToCheck args = None \<longrightarrow>
      opt_calendarsToCheck (detectionOptions CONFLICT_DETECTION_CONFIG args) = [calendarId args]"
    by (simp add: detectionOptions_def)
  have 4: "duplicateSimilarityThreshold args = None \<longrightarrow>
      opt_duplicateSimilarityThreshold (detectionOptions CONFLICT_DETECTION_CONFIG args) = 7 / 10"
    by (simp add: detectionOptions_def CONFLICT_DETECTION_CONFIG_def)
  from runTool_detections [OF tz, of CONFLICT_DETECTION_CONFIG] 2 3 4 show ?thesis by simp
qed

text \<open>
  Claim C9. A \<^verbatim>\<open>duplicateSimilarityThreshold\<close> of 0 passes the schema, and the
  detection then runs with the default threshold 0.7, not with 0.
\<close>

theorem zero_threshold_replaced:
  assumes tz: "resolveTimezone env args = (Inr timezone, tr0)"
      and zero: "duplicateSimilarityThreshold args = Some 0"
  shows "duplicateSimilarityThreshold_schema (duplicateSimilarityThreshold args)
         \<and> detections (snd (runTool CONFLICT_DETECTION_CONFIG env args))
             = [(eventToCheck env args timezone, calendarId args,
                 detectionOptions CONFLICT_DETECTION_CONFIG args)]
         \<and> opt_duplicateSimilarityThreshold (detectionOptions CONFLICT_DETECTION_CONFIG args) = 7 / 10
         \<and> opt_duplicateSimilarityThreshold (detectionOptions CONFLICT_DETECTION_CONFIG args) \<noteq> 0"
proof -
  have 2: "opt_duplicateSimilarityThreshold (detectionOptions CONFLICT_DETECTION_CONFIG args) = 7 / 10"
    using zero by (simp add: detectionOptions_def CONFLICT_DETECTION_CONFIG_def)
  have 3: "duplicateSimilarityThreshold_schema (duplicateSimilarityThreshold args)"
    using zero by (simp add: duplicateSimilarityThreshold_schema_def)
  from runTool_detections [OF tz, of CONFLICT_DETECTION_CONFIG] 2 3 show ?thesis by simp
qed

text \<open>The example call on the example calendar.\<close>

lemma team_sync_zone:
  "resolveTimezone (calendar_with ds) (team_sync_call th) = (Inr ''UTC'', [])"
  by (simp add: resolveTimezone_def team_sync_call_def)

lemma team_sync_report:
  "checkConflicts (calendar_with ds) e i opts = Inr \<lparr>conflicts = [''overlapping event''], duplicates = ds\<rparr>"
  by (simp add: calendar_with_def)

text \<open>The calendar already holds ``Team Sync'' with similarity 1.\<close>

theorem duplicate_blocks_creation_witness:
  "resolveTimezone (calendar_with [existing ''Team Sync'' 1]) (team_sync_call None) = (Inr ''UTC'', [])
   \<and> checkConflicts (calendar_with [existing ''Team Sync'' 1])
        (eventToCheck (calendar_with [existing ''Team Sync'' 1]) (team_sync_call None) ''UTC'')
        (calendarId (team_sync_call None))
        (detectionOptions CONFLICT_DETECTION_CONFIG (team_sync_call None))
       = Inr \<lparr>conflicts = [''overlapping event''], duplicates = [existing ''Team Sync'' 1]\<rparr>
   \<and> existing ''Team Sync'' 1 \<in> set [existing ''Team Sync'' 1]
   \<and> BLOCKING CONFLICT_DETECTION_CONFIG \<le> similarity (event (existing ''Team Sync'' 1))
   \<and> allowDuplicates (team_sync_call None) \<noteq> Some True
   \<and> runTool CONFLICT_DETECTION_CONFIG (calendar_with [existing ''Team Sync'' 1]) (team_sync_call None)
       = (Inl (DuplicateEventError
            ''Duplicate event detected (100% similar). Event \"Team Sync\" already exists. To create anyway, set allowDuplicates to true.''),
          [CheckConflicts (eventToCheck (calendar_with [existing ''Team Sync'' 1]) (team_sync_call None) ''UTC'')
             ''primary'' (detectionOptions CONFLICT_DETECTION_CONFIG (team_sync_call None))])"
proof -
  let ?env = "calendar_with [existing ''Team Sync'' 1]"
  let ?args = "team_sync_call None"
  have h1: "resolveTimezone ?env ?args = (Inr ''UTC'', [])" by (rule team_sync_zone)
  have h2: "checkConflicts ?env (eventToCheck ?env ?args ''UTC'') (calendarId ?args)
        (detectionOptions CONFLICT_DETECTION_CONFIG ?args)
       = Inr \<lparr>conflicts = [''overlapping event''], duplicates = [existing ''Team Sync'' 1]\<rparr>"
    by (rule team_sync_report)
  have h3: "existing ''Team Sync'' 1 \<in> set (duplicates \<lparr>conflicts = [''overlapping event''], duplicates = [existing ''Team Sync'' 1]\<rparr>)"
    by simp
  have h4: "BLOCKING CONFLICT_DETECTION_CONFIG \<le> similarity (event (existing ''Team Sync'' 1))"
    by (simp add: CONFLICT_DETECTION_CONFIG_def existing_def)
  have h5: "allowDuplicates ?args \<noteq> Some True" by (simp add: team_sync_call_def)
  from duplicate_blocks_creation [OF h1 h2 h3 h4 h5]
  have r: "fst (runTool CONFLICT_DETECTION_CONFIG ?env ?args)
             = Inl (DuplicateEventError (duplicateMessage (existing ''Team Sync'' 1)))"
    by simp
  have pct: "string_of_int (Math_round (1 * 100)) = ''100''"
    by (simp add: Math_round_def string_of_int_def) code_simp
  have m: "duplicateMessage (existing ''Team Sync'' 1)
      = ''Duplicate event detected (100% similar). Event \"Team Sync\" already exists. To create anyway, set allowDuplicates to true.''"
    using pct by (simp add: duplicateMessage_def existing_def)
  have tr: "snd (runTool CONFLICT_DETECTION_CONFIG ?env ?args)
      = [CheckConflicts (eventToCheck ?env ?args ''UTC'') ''primary'' (detectionOptions CONFLICT_DETECTION_CONFIG ?args)]"
    using h4 h5 by (simp add: runTool_def h1 team_sync_report Let_def) (simp add: team_sync_call_def)
  have "runTool CONFLICT_DETECTION_CONFIG ?env ?args = (fst (runTool CONFLICT_DETECTION_CONFIG ?env ?args), snd (runTool CONFLICT_DETECTION_CONFIG ?env ?args))"
    by simp
  then have run: "runTool CONFLICT_DETECTION_CONFIG ?env ?args
       = (Inl (DuplicateEventError
            ''Duplicate event detected (100% similar). Event \"Team Sync\" already exists. To create anyway, set allowDuplicates to true.''),
          [CheckConflicts (eventToCheck ?env ?args ''UTC'')
             ''primary'' (detectionOptions CONFLICT_DETECTION_CONFIG ?args)])"
    unfolding r m tr .
  from h1 h2 h4 h5 run show ?thesis by simp
qed

text \<open>A temporal conflict and a duplicate of similarity 0.8: the creation is not refused.\<close>

theorem refusal_iff_blocking_duplicate_witness:
  "resolveTimezone (calendar_with [existing ''Team Standup'' (8 / 10)]) (team_sync_call None) = (Inr ''UTC'', [])
   \<and> checkConflicts (calendar_with [existing ''Team Standup'' (8 / 10)])
        (eventToCheck (calendar_with [existing ''Team Standup'' (8 / 10)]) (team_sync_call None) ''UTC'')
        (calendarId (team_sync_call None))
        (detectionOptions CONFLICT_DETECTION_CONFIG (team_sync_call None))
       = Inr \<lparr>conflicts = [''overlapping event''], duplicates = [existing ''Team Standup'' (8 / 10)]\<rparr>
   \<and> \<not> (\<exists>m. fst (runTool CONFLICT_DETECTION_CONFIG (calendar_with [existing ''Team Standup'' (8 / 10)])
                  (team_sync_call None)) = Inl (DuplicateEventError m))"
proof -
  let ?env = "calendar_with [existing ''Team Standup'' (8 / 10)]"
  let ?args = "team_sync_call None"
  have h1: "resolveTimezone ?env ?args = (Inr ''UTC'', [])" by (rule team_sync_zone)
  have h2: "checkConflicts ?env (eventToCheck ?env ?args ''UTC'') (calendarId ?args)
        (detectionOptions CONFLICT_DETECTION_CONFIG ?args)
       = Inr \<lparr>conflicts = [''overlapping event''], duplicates = [existing ''Team Standup'' (8 / 10)]\<rparr>"
    by (rule team_sync_report)
  have nb: "\<not> (\<exists>d \<in> set [existing ''Team Standup'' (8 / 10)].
                BLOCKING CONFLICT_DETECTION_CONFIG \<le> similarity (event d))"
    by (simp add: CONFLICT_DETECTION_CONFIG_def existing_def)
  from refusal_iff_blocking_duplicate [OF h1 h2] nb
  have "\<not> (\<exists>m. fst (runTool CONFLICT_DETECTION_CONFIG ?env ?args) = Inl (DuplicateEventError m))"
    by blast
  with h1 h2 show ?thesis by blast
qed

theorem detection_defaults_witness:
  "resolveTimezone (calendar_with []) (team_sync_call None) = (Inr ''UTC'', [])
   \<and> calendarsToCheck (team_sync_call None) = None
   \<and> duplicateSimilarityThreshold (team_sync_call None) = None
   \<and> detections (snd (runTool CONFLICT_DETECTION_CONFIG (calendar_with []) (team_sync_call None)))
       = [(eventToCheck (calendar_with []) (team_sync_call None) ''UTC'', ''primary'',
           \<lparr>opt_checkDuplicates = True, opt_checkConflicts = True,
            opt_calendarsToCheck = [''primary''], opt_duplicateSimilarityThreshold = 7 / 10\<rparr>)]"
proof -
  let ?env = "calendar_with []"
  let ?args = "team_sync_call None"
  have h1: "resolveTimezone ?env ?args = (Inr ''UTC'', [])" by (rule team_sync_zone)
  have c: "calendarsToCheck ?args = None" and t: "duplicateSimilarityThreshold ?args = None"
    by (simp_all add: team_sync_call_def)
  have i: "calendarId ?args = ''primary''" by (simp add: team_sync_call_def)
  have o: "detectionOptions CONFLICT_DETECTION_CONFIG ?args
      = \<lparr>opt_checkDuplicates = True, opt_checkConflicts = True,
            opt_calendarsToCheck = [''primary''], opt_duplicateSimilarityThreshold = 7 / 10\<rparr>"
    by (simp add: detectionOptions_def c t i CONFLICT_DETECTION_CONFIG_def)
  from detection_defaults [OF h1]
  have "detections (snd (runTool CONFLICT_DETECTION_CONFIG ?env ?args))
           = [(eventToCheck ?env ?args ''UTC'', calendarId ?args,
               detectionOptions CONFLICT_DETECTION_CONFIG ?args)]"
    by blast
  then have "detections (snd (runTool CONFLICT_DETECTION_CONFIG ?env ?args))
       = [(eventToCheck ?env ?args ''UTC'', ''primary'',
           \<lparr>opt_checkDuplicates = True, opt_checkConflicts = True,
            opt_calendarsToCheck = [''primary''], opt_duplicateSimilarityThreshold = 7 / 10\<rparr>)]"
    unfolding o i .
  with h1 c t show ?thesis by blast
qed

theorem zero_threshold_replaced_witness:
  "resolveTimezone (calendar_with []) (team_sync_call (Some 0)) = (Inr ''UTC'', [])
   \<and> duplicateSimilarityThreshold (team_sync_call (Some 0)) = Some 0
   \<and> duplicateSimilarityThreshold_schema (Some 0)
   \<and> map (\<lambda>(e, i, opts). opt_duplicateSimilarityThreshold opts)
        (detections (snd (runTool CONFLICT_DETECTION_CONFIG (calendar_with []) (team_sync_call (Some 0)))))
       = [7 / 10]"
proof -
  let ?env = "calendar_with []"
  let ?args = "team_sync_call (Some 0)"
  have h1: "resolveTimezone ?env ?args = (Inr ''UTC'', [])" by (rule team_sync_zone)
  have z: "duplicateSimilarityThreshold ?args = Some 0" by (simp add: team_sync_call_def)
  from zero_threshold_replaced [OF h1 z]
  have "duplicateSimilarityThreshold_schema (Some 0)
      \<and> map (\<lambda>(e, i, opts). opt_duplicateSimilarityThreshold opts)
        (detections (snd (runTool CONFLICT_DETECTION_CONFIG ?env ?args))) = [7 / 10]"
    by (simp add: z)
  with h1 z show ?thesis by blast
qed


section \<open>Dispatch: the credentials are not tool arguments\<close>

lemma executeWithHandler_handler:
  "executeWithHandler rt h args
     = map_sum id (\<lambda>(toolArgs, client). h toolArgs client) (executeWithHandler rt Pair args)"
  by (simp add: executeWithHandler_def Let_def split: prod.split sum.split)

text \<open>
  Claim C10. Whatever the handler does, \<open>executeWithHandler\<close> either fails before calling
  it or returns what the handler's \<open>runTool\<close> gives for one pair of tool arguments and
  client; the tool arguments are the argument object without \<^verbatim>\<open>access_token\<close>,
  \<^verbatim>\<open>refresh_token\<close> and \<^verbatim>\<open>expiry_date\<close>, every other field as it was, and the
  access and refresh tokens travel in the credentials of the client.
\<close>

theorem credentials_stripped:
  "executeWithHandler rt h args
     = map_sum id (\<lambda>(toolArgs, client). h toolArgs client) (executeWithHandler rt Pair args)
   \<and> (\<forall>toolArgs authClient creds.
         executeWithHandler rt Pair args = Inr (toolArgs, authClient, creds) \<longrightarrow>
           (\<forall>k. toolArgs k = (if k \<in> credential_fields then None else args k))
         \<and> (\<exists>e. parse_tokens rt (field args ''access_token'', field args ''refresh_token'',
                                   field args ''expiry_date'')
                  = (cred_access_token creds, cred_refresh_token creds, e)))"
proof -
  have 2: "\<forall>toolArgs authClient creds.
         executeWithHandler rt Pair args = Inr (toolArgs, authClient, creds) \<longrightarrow>
           (\<forall>k. toolArgs k = (if k \<in> credential_fields then None else args k))
         \<and> (\<exists>e. parse_tokens rt (field args ''access_token'', field args ''refresh_token'',
                                   field args ''expiry_date'')
                  = (cred_access_token creds, cred_refresh_token creds, e))"
    by (auto simp: executeWithHandler_def Let_def restrict_map_def split: prod.splits sum.splits if_splits)
  with executeWithHandler_handler [of rt h args] show ?thesis by blast
qed

text \<open>The call of the unit test with simple string tokens.\<close>

theorem credentials_stripped_witness:
  "executeWithHandler plain_runtime Pair token_call
     = Inr ([''calendarId'' \<mapsto> JStr ''primary''], (),
            \<lparr>cred_access_token = JStr ''ya29.simple_access_token'',
             cred_refresh_token = JStr ''1//simple_refresh_token'',
             cred_expiry_date = JNum 1763010691\<rparr>)
   \<and> (\<forall>k. [''calendarId'' \<mapsto> JStr ''primary''] k
            = (if k \<in> credential_fields then None else token_call k))"
proof -
  have p: "parse_tokens plain_runtime (field token_call ''access_token'', field token_call ''refresh_token'',
                                   field token_call ''expiry_date'')
       = (JStr ''ya29.simple_access_token'', JStr ''1//simple_refresh_token'', JStr ''1763010691'')"
    by (simp add: parse_tokens_def parse_token_def field_def token_call_def)
  have n: "parseInt ''1763010691'' = Some 1763010691"
    by (simp add: parseInt_def is_digit_def digit_val_def)
  have r: "token_call |` (- credential_fields) = [''calendarId'' \<mapsto> JStr ''primary'']"
    by (auto simp: fun_eq_iff restrict_map_def token_call_def credential_fields_def)
  have e: "executeWithHandler plain_runtime Pair token_call
     = Inr ([''calendarId'' \<mapsto> JStr ''primary''], (),
            \<lparr>cred_access_token = JStr ''ya29.simple_access_token'',
             cred_refresh_token = JStr ''1//simple_refresh_token'',
             cred_expiry_date = JNum 1763010691\<rparr>)"
    by (simp add: executeWithHandler_def p r Let_def) (simp add: plain_runtime_def n)
  from credentials_stripped [of plain_runtime Pair token_call] e
  have "\<forall>k. [''calendarId'' \<mapsto> JStr ''primary''] k
            = (if k \<in> credential_fields then None else token_call k)"
    by blast
  with e show ?thesis by blast
qed

text \<open>The older variant leaves \<^verbatim>\<open>expiry_date\<close> among the tool arguments.\<close>

lemma stored_variant_keeps_expiry_date:
  "executeWithHandler_stored plain_runtime srv (\<lambda>toolArgs client. toolArgs ''expiry_date'') token_call
     = Inr (Some (JStr ''1763010691''))"
  by (simp add: executeWithHandler_stored_def Let_def field_def token_call_def plain_runtime_def)

end
